theory Spec2Isabelle
  imports Complex_Main
begin

section \<open>The document tree\<close>

text \<open>
  The walker of \<^verbatim>\<open>src/walker.ts\<close> reads a parsed document through the DOM interface.
  A node is an element (tag name, attributes in document order, children), a text node,
  a comment or the document itself. JavaScript numbers are modelled as reals (finite
  values with exact arithmetic; \<^verbatim>\<open>NaN\<close> and the infinities are outside the model).
\<close>

datatype node =
    Element string "(string \<times> string) list" "node list"
  | Text string
  | Comment string
  | Document "node list"

fun tagName :: "node \<Rightarrow> string option" where
  "tagName (Element t as cs) = Some t"
| "tagName (Text s) = None"
| "tagName (Comment s) = None"
| "tagName (Document cs) = None"

fun nodeName :: "node \<Rightarrow> string" where
  "nodeName (Element t as cs) = t"
| "nodeName (Text s) = ''#text''"
| "nodeName (Comment s) = ''#comment''"
| "nodeName (Document cs) = ''#document''"

fun childNodes :: "node \<Rightarrow> node list" where
  "childNodes (Element t as cs) = cs"
| "childNodes (Text s) = []"
| "childNodes (Comment s) = []"
| "childNodes (Document cs) = cs"

fun attributes :: "node \<Rightarrow> (string \<times> string) list" where
  "attributes (Element t as cs) = as"
| "attributes (Text s) = []"
| "attributes (Comment s) = []"
| "attributes (Document cs) = []"

definition getAttribute :: "node \<Rightarrow> string \<Rightarrow> string option" where
  "getAttribute el name = map_of (attributes el) name"

definition hasAttribute :: "node \<Rightarrow> string \<Rightarrow> bool" where
  "hasAttribute el name = (getAttribute el name \<noteq> None)"

text \<open>Setting an attribute replaces the value where the name exists and appends otherwise.\<close>

fun assign :: "(string \<times> 'v) list \<Rightarrow> string \<Rightarrow> 'v \<Rightarrow> (string \<times> 'v) list" where
  "assign [] name v = [(name, v)]"
| "assign ((k, w) # rest) name v =
     (if k = name then (k, v) # rest else (k, w) # assign rest name v)"

fun setAttribute :: "node \<Rightarrow> string \<Rightarrow> string \<Rightarrow> node" where
  "setAttribute (Element t as cs) name v = Element t (assign as name v) cs"
| "setAttribute (Text s) name v = Text s"
| "setAttribute (Comment s) name v = Comment s"
| "setAttribute (Document cs) name v = Document cs"

text \<open>\<^verbatim>\<open>cloneNode()\<close> without argument is the shallow copy: the attributes, no child.\<close>

fun cloneNode :: "node \<Rightarrow> node" where
  "cloneNode (Element t as cs) = Element t as []"
| "cloneNode (Text s) = Text s"
| "cloneNode (Comment s) = Comment s"
| "cloneNode (Document cs) = Document []"

text \<open>
  \<^verbatim>\<open>textContent\<close>: for an element the data of its text descendants in document order
  (comments do not count), for a text node or a comment its own data, for a document
  \<^verbatim>\<open>null\<close>, which \<^verbatim>\<open>|| ""\<close> turns into the empty string.
\<close>

fun descendantText :: "node \<Rightarrow> string" where
  "descendantText (Element t as cs) = concat (map descendantText cs)"
| "descendantText (Text s) = s"
| "descendantText (Comment s) = []"
| "descendantText (Document cs) = concat (map descendantText cs)"

fun textContent :: "node \<Rightarrow> string" where
  "textContent (Element t as cs) = descendantText (Element t as cs)"
| "textContent (Text s) = s"
| "textContent (Comment s) = s"
| "textContent (Document cs) = []"

text \<open>The value of \<^verbatim>\<open>a || b\<close> on strings that may be absent: the empty string is falsy.\<close>

definition truthy :: "string option \<Rightarrow> string option" where
  "truthy v = (case v of None \<Rightarrow> None | Some s \<Rightarrow> if s = [] then None else Some s)"

definition or_else :: "string option \<Rightarrow> string option \<Rightarrow> string option" where
  "or_else a b = (case truthy a of Some s \<Rightarrow> Some s | None \<Rightarrow> b)"

section \<open>Reference merging: \<^verbatim>\<open>getDefElWithCorrectAttrs\<close>\<close>

definition skippedUseAttrs :: "string list" where
  "skippedUseAttrs = [''id'']"

definition allwaysPassedUseAttrs :: "string list" where
  "allwaysPassedUseAttrs = [''x'', ''y'', ''width'', ''height'', ''href'', ''xlink:href'']"

text \<open>
  The reducer over \<^verbatim>\<open>[...useEl.attributes]\<close>. The first test reads \<^verbatim>\<open>attr.value\<close>,
  as the source does.
\<close>

definition mergeAttr :: "node \<Rightarrow> node \<Rightarrow> node \<Rightarrow> (string \<times> string) \<Rightarrow> node" where
  "mergeAttr defEl useEl el attr =
     (if snd attr \<in> set skippedUseAttrs then el
      else if \<not> hasAttribute defEl (fst attr) \<or> fst attr \<in> set allwaysPassedUseAttrs
        then setAttribute el (fst attr)
               (case or_else (getAttribute useEl (fst attr)) (Some []) of
                  Some v \<Rightarrow> v | None \<Rightarrow> [])
      else el)"

definition getDefElWithCorrectAttrs :: "node \<Rightarrow> node \<Rightarrow> node" where
  "getDefElWithCorrectAttrs defEl useEl =
     foldl (mergeAttr defEl useEl) (cloneNode defEl) (attributes useEl)"

section \<open>Output primitives and collaborators\<close>

text \<open>
  An output primitive is a JavaScript object: a finite map from field names to values.
  The object spread \<^verbatim>\<open>{...a, ...b, k: v}\<close> is \<open>(a ++ b)(k \<mapsto> v)\<close>: later entries win.
\<close>

type_synonym point = "real \<times> real"

datatype jsval = Num real | Str string | Pts "point list" | Ids "string list"

type_synonym obj = "string \<rightharpoonup> jsval"

text \<open>A 4x4 matrix of gl-matrix: sixteen numbers in column-major order.\<close>

type_synonym mat4 = "real list"

record group =
  group_id :: string
  group_element :: node

text \<open>
  The modules \<^verbatim>\<open>./attributes\<close>, \<^verbatim>\<open>./transform\<close>, \<^verbatim>\<open>./utils\<close>, \<^verbatim>\<open>./elements/*\<close>
  and the library \<^verbatim>\<open>points-on-path\<close> are collaborators of the walker: their functions are
  parameters of the model, gathered in one record. \<open>randomId\<close> is the sequence of
  identifiers that successive calls of \<^verbatim>\<open>randomId()\<close> return; the state carries the number
  of calls made so far. \<open>querySelector\<close>, \<open>innerHTML\<close> and \<open>cssRules\<close> stand for the
  platform's document queries used by the reference and text handlers: \<open>querySelector\<close>
  throws on a string that is no selector and otherwise returns the first match or
  \<^verbatim>\<open>null\<close>; \<open>cssRules\<close> gives each rule's selector text with its parsed font size.
  \<open>fround\<close> is the rounding that a store into a matrix of gl-matrix performs (its
  matrices are \<^verbatim>\<open>Float32Array\<close>s, so every entry written is rounded to single precision).
  The other collaborators are taken to return a value on every argument.
\<close>

datatype error =
    UnableToGetId
  | UnableToFindDef string
  | UnableToCreateEx
  | TypeError
  | RangeError
  | SyntaxError

record deps =
  getGroupAttrs :: "group list \<Rightarrow> obj"
  presAttrsToElementValues :: "node \<Rightarrow> obj"
  filterAttrsToElementValues :: "node \<Rightarrow> obj"
  pointsAttrToPoints :: "node \<Rightarrow> point list"
  has :: "node \<Rightarrow> string \<Rightarrow> bool"
  get :: "node \<Rightarrow> string \<Rightarrow> string option \<Rightarrow> string"
  getNum :: "node \<Rightarrow> string \<Rightarrow> real \<Rightarrow> real"
  getTransformMatrix :: "node \<Rightarrow> group list \<Rightarrow> mat4"
  transformPoints :: "point list \<Rightarrow> mat4 \<Rightarrow> point list"
  pointsOnPath :: "string \<Rightarrow> point list list"
  getWindingOrder :: "point list \<Rightarrow> string"
  dimensionsFromPoints :: "point list \<Rightarrow> real \<times> real"
  randomId :: "nat \<Rightarrow> string"
  createExRect :: obj
  createExEllipse :: obj
  createExLine :: obj
  createExDraw :: obj
  createExText :: obj
  querySelector :: "node \<Rightarrow> string \<Rightarrow> error + node option"
  innerHTML :: "node \<Rightarrow> string"
  cssRules :: "node \<Rightarrow> (string \<times> real) list option"
  fround :: "real \<Rightarrow> real"

definition presAttrs :: "deps \<Rightarrow> node \<Rightarrow> group list \<Rightarrow> obj" where
  "presAttrs D el groups =
     getGroupAttrs D groups ++ presAttrsToElementValues D el ++ filterAttrsToElementValues D el"

text \<open>
  \<^verbatim>\<open>mat4.fromValues\<close> and \<^verbatim>\<open>mat4.multiply(out, a, b)\<close> of gl-matrix: both write their
  sixteen results into a fresh matrix, so each is rounded by \<open>fround\<close>. The numbers that
  the handlers read back (\<^verbatim>\<open>result[12]\<close> and so on) are these rounded entries.
\<close>

definition mat4_fromValues :: "deps \<Rightarrow> real list \<Rightarrow> mat4" where
  "mat4_fromValues D vs = map (fround D) vs"

definition mat4_multiply :: "deps \<Rightarrow> mat4 \<Rightarrow> mat4 \<Rightarrow> mat4" where
  "mat4_multiply D a b =
     map (fround D)
       [(\<Sum>k\<leftarrow>[0..<4]. b ! (4 * c + k) * a ! (4 * k + r)). c \<leftarrow> [0..<4], r \<leftarrow> [0..<4]]"

text \<open>The argument list \<^verbatim>\<open>(w, 0, 0, 0, 0, h, 0, 0, 0, 0, 1, 0, x, y, 0, 1)\<close> of the handlers.\<close>

definition scaleTranslate :: "real \<Rightarrow> real \<Rightarrow> real \<Rightarrow> real \<Rightarrow> real list" where
  "scaleTranslate w h x y = [w, 0, 0, 0, 0, h, 0, 0, 0, 0, 1, 0, x, y, 0, 1]"

text \<open>
  Re-baselining, written out in each point-list handler: every point minus the first one.
\<close>

definition relativeTo :: "real \<Rightarrow> real \<Rightarrow> point list \<Rightarrow> point list" where
  "relativeTo x y ps = map (\<lambda>(px, py). (px - x, py - y)) ps"

section \<open>The shape handlers\<close>

definition circle_primitive :: "deps \<Rightarrow> node \<Rightarrow> group list \<Rightarrow> obj" where
  "circle_primitive D el groups =
     (let r = getNum D el ''r'' 0;
          d = r * 2;
          x = getNum D el ''x'' 0 + getNum D el ''cx'' 0 - r;
          y = getNum D el ''y'' 0 + getNum D el ''cy'' 0 - r;
          mat = getTransformMatrix D el groups;
          m = mat4_fromValues D (scaleTranslate d d x y);
          result = mat4_multiply D mat m
      in (createExEllipse D ++ presAttrs D el groups)
           (''x'' \<mapsto> Num (result ! 12), ''y'' \<mapsto> Num (result ! 13),
            ''width'' \<mapsto> Num (result ! 0), ''height'' \<mapsto> Num (result ! 5),
            ''groupIds'' \<mapsto> Ids (map group_id groups)))"

definition ellipse_primitive :: "deps \<Rightarrow> node \<Rightarrow> group list \<Rightarrow> obj" where
  "ellipse_primitive D el groups =
     (let rx = getNum D el ''rx'' 0;
          ry = getNum D el ''ry'' 0;
          cx = getNum D el ''cx'' 0;
          cy = getNum D el ''cy'' 0;
          x = getNum D el ''x'' 0 + cx - rx;
          y = getNum D el ''y'' 0 + cy - ry;
          w = rx * 2;
          h = ry * 2;
          mat = getTransformMatrix D el groups;
          m = mat4_fromValues D (scaleTranslate w h x y);
          result = mat4_multiply D mat m
      in (createExEllipse D ++ presAttrs D el groups)
           (''x'' \<mapsto> Num (result ! 12), ''y'' \<mapsto> Num (result ! 13),
            ''width'' \<mapsto> Num (result ! 0), ''height'' \<mapsto> Num (result ! 5),
            ''groupIds'' \<mapsto> Ids (map group_id groups)))"

definition rect_primitive :: "deps \<Rightarrow> node \<Rightarrow> group list \<Rightarrow> obj" where
  "rect_primitive D el groups =
     (let x = getNum D el ''x'' 0;
          y = getNum D el ''y'' 0;
          w = getNum D el ''width'' 0;
          h = getNum D el ''height'' 0;
          mat = getTransformMatrix D el groups;
          m = mat4_fromValues D (scaleTranslate w h x y);
          result = mat4_multiply D mat m;
          isRound = (hasAttribute el ''rx'' \<or> hasAttribute el ''ry'')
      in (createExRect D ++ presAttrs D el groups)
           (''x'' \<mapsto> Num (result ! 12), ''y'' \<mapsto> Num (result ! 13),
            ''width'' \<mapsto> Num (result ! 0), ''height'' \<mapsto> Num (result ! 5),
            ''strokeSharpness'' \<mapsto> Str (if isRound then ''round'' else ''sharp'')))"

text \<open>
  \<^verbatim>\<open>transformedPoints[0][0]\<close> on an empty array reads a property of \<^verbatim>\<open>undefined\<close>:
  the handler throws a \<^verbatim>\<open>TypeError\<close> and nothing is pushed.
\<close>

definition polygon_primitive :: "deps \<Rightarrow> node \<Rightarrow> group list \<Rightarrow> error + obj" where
  "polygon_primitive D el groups =
     (let points = pointsAttrToPoints D el;
          mat = getTransformMatrix D el groups;
          transformedPoints = transformPoints D points mat
      in case transformedPoints of
           [] \<Rightarrow> Inl TypeError
         | (x, y) # _ \<Rightarrow>
             (let relativePoints = relativeTo x y transformedPoints;
                  dims = dimensionsFromPoints D relativePoints
              in Inr ((createExLine D ++ getGroupAttrs D groups ++ presAttrsToElementValues D el)
                        (''points'' \<mapsto> Pts (relativePoints @ [(0, 0)]),
                         ''x'' \<mapsto> Num x, ''y'' \<mapsto> Num y,
                         ''width'' \<mapsto> Num (fst dims), ''height'' \<mapsto> Num (snd dims)))))"

definition polyline_primitive :: "deps \<Rightarrow> node \<Rightarrow> group list \<Rightarrow> error + obj" where
  "polyline_primitive D el groups =
     (let mat = getTransformMatrix D el groups;
          points = pointsAttrToPoints D el;
          transformedPoints = transformPoints D points mat
      in case transformedPoints of
           [] \<Rightarrow> Inl TypeError
         | (x, y) # _ \<Rightarrow>
             (let relativePoints = relativeTo x y transformedPoints;
                  dims = dimensionsFromPoints D relativePoints;
                  hasFill = has D el ''fill'';
                  fill = get D el ''fill'' None;
                  shouldFill = (\<not> hasFill \<or> (hasFill \<and> fill \<noteq> ''none''))
              in Inr ((createExLine D ++ getGroupAttrs D groups ++ presAttrsToElementValues D el)
                        (''points'' \<mapsto> Pts (relativePoints @ (if shouldFill then [(0, 0)] else [])),
                         ''x'' \<mapsto> Num x, ''y'' \<mapsto> Num y,
                         ''width'' \<mapsto> Num (fst dims), ''height'' \<mapsto> Num (snd dims)))))"

text \<open>
  The text handler. \<^verbatim>\<open>root.documentElement\<close> is the first element child of the document;
  \<^verbatim>\<open>s.includes(t)\<close> is the contiguous-substring test; \<^verbatim>\<open>n || 10\<close> replaces zero by ten.
\<close>

fun str_includes :: "string \<Rightarrow> string \<Rightarrow> bool" where
  "str_includes [] t = (t = [])"
| "str_includes (c # s) t = (take (length t) (c # s) = t \<or> str_includes s t)"

definition documentElement :: "node \<Rightarrow> node option" where
  "documentElement doc = find (\<lambda>c. tagName c \<noteq> None) (childNodes doc)"

definition or10 :: "real \<Rightarrow> real" where
  "or10 v = (if v = 0 then 10 else v)"

definition classRule :: "string \<Rightarrow> (string \<times> real) \<Rightarrow> bool" where
  "classRule className r =
     (fst r = ''.'' @ className \<or> fst r = ''.'' @ className @ '' tspan'' \<or>
      fst r = ''text.'' @ className \<or> fst r = ''text.'' @ className @ '' tspan'')"

definition text_run ::
  "deps \<Rightarrow> node \<Rightarrow> group list \<Rightarrow> bool \<Rightarrow> real \<Rightarrow> real \<Rightarrow> real \<Rightarrow> string \<Rightarrow> string \<Rightarrow> real \<Rightarrow> obj" where
  "text_run D el groups adjustHeight fontSize rx ry content stroke shownSize =
     (createExText D ++ presAttrs D el groups)
       (''x'' \<mapsto> Num rx,
        ''y'' \<mapsto> Num (if adjustHeight then ry - or10 fontSize else ry),
        ''originalText'' \<mapsto> Str content,
        ''fillStyle'' \<mapsto> Str ''hachure'',
        ''text'' \<mapsto> Str content,
        ''strokeColor'' \<mapsto> Str stroke,
        ''backgroundColor'' \<mapsto> Str ''transparent'',
        ''width'' \<mapsto> Num (8 * real (length content)),
        ''lineHeight'' \<mapsto> Num 1.5,
        ''height'' \<mapsto> Num 15,
        ''fontSize'' \<mapsto> Num (or10 shownSize),
        ''fontFamily'' \<mapsto> Num 2)"

definition text_child ::
  "deps \<Rightarrow> node \<Rightarrow> group list \<Rightarrow> bool \<Rightarrow> real \<Rightarrow> real \<Rightarrow> real \<Rightarrow> bool \<Rightarrow> string \<Rightarrow> mat4 \<Rightarrow>
   node \<Rightarrow> obj list" where
  "text_child D el groups adjustHeight fontSize x y hasFill fill mat child =
     (case child of
        Text s \<Rightarrow>
          (let result = mat4_multiply D mat (mat4_fromValues D (scaleTranslate 1 1 x y))
           in [text_run D el groups adjustHeight fontSize (result ! 12) (result ! 13)
                 (textContent child) (if hasFill then fill else ''#1E1E1E'') fontSize])
      | Element t as cs \<Rightarrow>
          (if t = ''tspan'' then
             (let childFontSize =
                    (if has D child ''font-size'' then getNum D child ''font-size'' 10 else fontSize);
                  hasChildFill = has D child ''fill'';
                  childFill = (if has D child ''fill'' then get D child ''fill'' None else fill);
                  childX = (if has D child ''x'' then getNum D child ''x'' 0 else x);
                  childY = (if has D child ''y'' then getNum D child ''y'' 0 else y);
                  updatedResult =
                    mat4_multiply D mat (mat4_fromValues D (scaleTranslate 1 1 childX childY))
              in [text_run D el groups adjustHeight fontSize (updatedResult ! 12) (updatedResult ! 13)
                    (textContent child)
                    (if hasFill \<or> hasChildFill then childFill else ''#1E1E1E'') childFontSize])
           else [])
      | _ \<Rightarrow> [])"

definition text_primitives :: "deps \<Rightarrow> node \<Rightarrow> node \<Rightarrow> group list \<Rightarrow> error + obj list" where
  "text_primitives D doc el groups =
     (case documentElement doc of
        None \<Rightarrow> Inl TypeError
      | Some docEl \<Rightarrow>
          (let adjustHeight = (\<not> str_includes (innerHTML D docEl) ''excalidraw'');
               fromClass =
                 (case (truthy (getAttribute el ''class''), cssRules D doc) of
                    (Some className, Some styleRules) \<Rightarrow>
                      (case find (classRule className) styleRules of
                         Some rule \<Rightarrow> snd rule
                       | None \<Rightarrow> 10)
                  | _ \<Rightarrow> 10);
               fontSize = getNum D el ''font-size'' fromClass;
               x = getNum D el ''x'' 0;
               y = getNum D el ''y'' 0;
               hasFill = has D el ''fill'';
               fill = get D el ''fill'' None;
               mat = getTransformMatrix D el groups
           in Inr (concat (map (text_child D el groups adjustHeight fontSize x y hasFill fill mat)
                             (childNodes el)))))"

section \<open>The path handler\<close>

text \<open>
  The body of the \<^verbatim>\<open>nonzero\<close> callback after the winding order is known, and the
  \<^verbatim>\<open>evenodd\<close> callback's object. The fields written after the spread of \<open>presAttrs\<close>
  override it; those written before are defaults that it overrides.
\<close>

definition nonzero_primitive ::
  "deps \<Rightarrow> node \<Rightarrow> group list \<Rightarrow> point list \<Rightarrow> real \<Rightarrow> real \<Rightarrow> string \<Rightarrow> string \<Rightarrow> obj" where
  "nonzero_primitive D el groups tPoints x y backgroundColor localGroup =
     (let dims = dimensionsFromPoints D tPoints
      in (createExDraw D ++ [''strokeWidth'' \<mapsto> Num 0, ''strokeColor'' \<mapsto> Str ''#00000000'']
            ++ presAttrs D el groups)
           (''points'' \<mapsto> Pts (relativeTo x y tPoints),
            ''backgroundColor'' \<mapsto> Str backgroundColor,
            ''width'' \<mapsto> Num (fst dims), ''height'' \<mapsto> Num (snd dims),
            ''x'' \<mapsto> Num (x + getNum D el ''x'' 0),
            ''y'' \<mapsto> Num (y + getNum D el ''y'' 0),
            ''groupIds'' \<mapsto> Ids [localGroup]))"

definition evenodd_primitive ::
  "deps \<Rightarrow> node \<Rightarrow> group list \<Rightarrow> point list \<Rightarrow> real \<Rightarrow> real \<Rightarrow> obj" where
  "evenodd_primitive D el groups tPoints x y =
     (let dims = dimensionsFromPoints D tPoints
      in (createExDraw D ++ presAttrs D el groups)
           (''points'' \<mapsto> Pts (relativeTo x y tPoints),
            ''width'' \<mapsto> Num (fst dims), ''height'' \<mapsto> Num (snd dims),
            ''x'' \<mapsto> Num (x + getNum D el ''x'' 0),
            ''y'' \<mapsto> Num (y + getNum D el ''y'' 0)))"

definition backgroundOf :: "string \<Rightarrow> string \<Rightarrow> string \<Rightarrow> string" where
  "backgroundOf fillColor initialWindingOrder windingOrder =
     (let backgroundColor = fillColor;
          backgroundColor = (if backgroundColor = ''none'' then ''transparent'' else backgroundColor);
          backgroundColor = (if initialWindingOrder \<noteq> windingOrder then ''#FFFFFF'' else backgroundColor)
      in backgroundColor)"

text \<open>
  \<^verbatim>\<open>points.map((pointArr, idx) => ...)\<close> with the variables the callback assigns:
  \<open>initialWindingOrder\<close>, \<open>localGroup\<close> and the number \<open>k\<close> of identifiers drawn.
  \<^verbatim>\<open>mat4.clone(mat)\<close> copies the matrix entry by entry into a matrix of the same kind, so
  the copy holds the same numbers.
\<close>

fun nonzero_map ::
  "deps \<Rightarrow> node \<Rightarrow> group list \<Rightarrow> mat4 \<Rightarrow> string \<Rightarrow> nat \<Rightarrow> string \<Rightarrow> string \<Rightarrow> nat \<Rightarrow>
   point list list \<Rightarrow> error + (obj list \<times> nat)" where
  "nonzero_map D el groups mat fillColor idx initialWindingOrder localGroup k [] = Inr ([], k)"
| "nonzero_map D el groups mat fillColor idx initialWindingOrder localGroup k (pointArr # rest) =
     (let tPoints = transformPoints D pointArr mat in
      if tPoints = [] then Inl TypeError
      else
        (let x = fst (hd tPoints);
             y = snd (hd tPoints);
             windingOrder = getWindingOrder D (relativeTo x y tPoints);
             initialWindingOrder' = (if idx = 0 then windingOrder else initialWindingOrder);
             localGroup' = (if idx = 0 then randomId D k else localGroup);
             k' = (if idx = 0 then Suc k else k);
             prim = nonzero_primitive D el groups tPoints x y
                      (backgroundOf fillColor initialWindingOrder' windingOrder) localGroup'
         in case nonzero_map D el groups mat fillColor (Suc idx) initialWindingOrder' localGroup' k' rest of
              Inl e \<Rightarrow> Inl e
            | Inr r \<Rightarrow> Inr (prim # fst r, snd r)))"

fun evenodd_map ::
  "deps \<Rightarrow> node \<Rightarrow> group list \<Rightarrow> mat4 \<Rightarrow> nat \<Rightarrow> string \<Rightarrow> nat \<Rightarrow>
   point list list \<Rightarrow> error + (obj list \<times> nat)" where
  "evenodd_map D el groups mat idx localGroup k [] = Inr ([], k)"
| "evenodd_map D el groups mat idx localGroup k (pointArr # rest) =
     (let tPoints = transformPoints D pointArr mat in
      if tPoints = [] then Inl TypeError
      else
        (let x = fst (hd tPoints);
             y = snd (hd tPoints);
             localGroup' = (if idx = 0 then randomId D k else localGroup);
             k' = (if idx = 0 then Suc k else k);
             prim = evenodd_primitive D el groups tPoints x y
         in case evenodd_map D el groups mat (Suc idx) localGroup' k' rest of
              Inl e \<Rightarrow> Inl e
            | Inr r \<Rightarrow> Inr (prim # fst r, snd r)))"

definition path_primitives :: "deps \<Rightarrow> node \<Rightarrow> group list \<Rightarrow> nat \<Rightarrow> error + (obj list \<times> nat)" where
  "path_primitives D el groups k =
     (let mat = getTransformMatrix D el groups;
          points = pointsOnPath D (get D el ''d'' None);
          fillColor = get D el ''fill'' (Some ''transparent'');
          fillRule = get D el ''fill-rule'' (Some ''nonzero'');
          localGroup = randomId D k
      in if fillRule = ''nonzero''
           then nonzero_map D el groups mat fillColor 0 ''clockwise'' localGroup (Suc k) points
         else if fillRule = ''evenodd''
           then evenodd_map D el groups mat 0 localGroup (Suc k) points
         else Inr ([], Suc k))"

section \<open>The tree walker\<close>

text \<open>
  A \<^verbatim>\<open>TreeWalker\<close> is its current node together with the way back to its root: for each
  ancestor up to the root, the ancestor and the siblings that follow the node below it.
  The walker never looks above its root, so the root is where this list ends.
  The filter answers \<^verbatim>\<open>FILTER_ACCEPT\<close> or \<^verbatim>\<open>FILTER_REJECT\<close> only; a rejected node is
  passed over with all its descendants.
\<close>

definition SUPPORTED_TAGS :: "string list" where
  "SUPPORTED_TAGS =
     [''svg'', ''path'', ''g'', ''text'', ''use'', ''circle'', ''ellipse'', ''rect'',
      ''polyline'', ''polygon'']"

definition nodeValidator :: "node \<Rightarrow> bool" where
  "nodeValidator nd = (case tagName nd of None \<Rightarrow> False | Some t \<Rightarrow> t \<in> set SUPPORTED_TAGS)"

record TreeWalker =
  currentNode :: node
  above :: "(node \<times> node list) list"

definition createTreeWalker :: "node \<Rightarrow> TreeWalker" where
  "createTreeWalker nd = \<lparr>currentNode = nd, above = []\<rparr>"

text \<open>
  The first accepted node that follows in document order, outside the subtree just left:
  the next siblings first, then those of the parent, and so on up to the root.
\<close>

fun following :: "(node \<times> node list) list \<Rightarrow> TreeWalker option" where
  "following [] = None"
| "following ((parent, []) # up) = following up"
| "following ((parent, s # rest) # up) =
     (if nodeValidator s then Some \<lparr>currentNode = s, above = (parent, rest) # up\<rparr>
      else following ((parent, rest) # up))"

definition nextNode_step :: "TreeWalker \<Rightarrow> TreeWalker option" where
  "nextNode_step tw =
     (case childNodes (currentNode tw) of
        [] \<Rightarrow> following (above tw)
      | c # cs \<Rightarrow>
          (if nodeValidator c
             then Some \<lparr>currentNode = c, above = (currentNode tw, cs) # above tw\<rparr>
           else following ((currentNode tw, cs) # above tw)))"

text \<open>
  \<^verbatim>\<open>nextSibling()\<close>: the first accepted sibling after the current node; failing that, the
  search goes on among the parent's siblings only when the parent is below the root and is
  itself rejected.
\<close>

fun firstAccepted :: "node \<Rightarrow> node list \<Rightarrow> (node \<times> node list) list \<Rightarrow> TreeWalker option" where
  "firstAccepted parent [] up = None"
| "firstAccepted parent (s # rest) up =
     (if nodeValidator s then Some \<lparr>currentNode = s, above = (parent, rest) # up\<rparr>
      else firstAccepted parent rest up)"

fun siblings :: "(node \<times> node list) list \<Rightarrow> TreeWalker option" where
  "siblings [] = None"
| "siblings ((parent, rest) # up) =
     (case firstAccepted parent rest up of
        Some tw \<Rightarrow> Some tw
      | None \<Rightarrow> (if up = [] \<or> nodeValidator parent then None else siblings up))"

text \<open>
  A move returns the node found and leaves the walker there, or returns \<^verbatim>\<open>null\<close> and
  leaves the walker where it was.
\<close>

definition move :: "TreeWalker \<Rightarrow> TreeWalker option \<Rightarrow> TreeWalker \<times> node option" where
  "move tw r = (case r of None \<Rightarrow> (tw, None) | Some tw' \<Rightarrow> (tw', Some (currentNode tw')))"

definition nextNode :: "TreeWalker \<Rightarrow> TreeWalker \<times> node option" where
  "nextNode tw = move tw (nextNode_step tw)"

definition nextSibling :: "TreeWalker \<Rightarrow> TreeWalker \<times> node option" where
  "nextSibling tw = move tw (siblings (above tw))"

section \<open>The traversal driver\<close>

text \<open>
  \<open>walk n D doc tw groups (elements, k) nextNode\<close>: \<open>n\<close> bounds the depth of nested calls
  (every handler calls \<^verbatim>\<open>walk\<close> again, so the call stack grows with each node visited; at
  depth zero the engine throws its \<^verbatim>\<open>RangeError\<close>); \<open>elements\<close> is \<^verbatim>\<open>scene.elements\<close>
  and \<open>k\<close> the number of identifiers drawn so far. The scene is an object that the
  handlers mutate, so it outlives a thrown error: the outcome of a call is \<open>Inr\<close> of the
  state on return, or \<open>Inl\<close> of the error thrown together with the elements that the
  scene of this call holds at that moment.
  The handlers read the element from \<^verbatim>\<open>tw.currentNode\<close>; the node passed to \<^verbatim>\<open>walk\<close>
  only selects the handler, by \<^verbatim>\<open>walkers[nodeName]\<close>.
\<close>

type_synonym outcome = "(error \<times> obj list) + (obj list \<times> nat)"

text \<open>
  \<^verbatim>\<open>walkers[nodeName]\<close> also finds what the object literal inherits from
  \<^verbatim>\<open>Object.prototype\<close>. All of it is truthy, so it is called with \<^verbatim>\<open>args\<close>:
  \<^verbatim>\<open>constructor\<close>, \<^verbatim>\<open>hasOwnProperty\<close>, \<^verbatim>\<open>isPrototypeOf\<close>, \<^verbatim>\<open>propertyIsEnumerable\<close>,
  \<^verbatim>\<open>toString\<close>, \<^verbatim>\<open>toLocaleString\<close>, \<^verbatim>\<open>valueOf\<close>, \<^verbatim>\<open>__lookupGetter__\<close> and
  \<^verbatim>\<open>__lookupSetter__\<close> return without effect; \<^verbatim>\<open>__proto__\<close> is an object and no
  function, and \<^verbatim>\<open>__defineGetter__\<close> and \<^verbatim>\<open>__defineSetter__\<close> reject the missing second
  argument: for these three names the call throws a \<^verbatim>\<open>TypeError\<close>.
\<close>

definition uncallable :: "string list" where
  "uncallable = [''__proto__'', ''__defineGetter__'', ''__defineSetter__'']"

text \<open>
  Modelled from the spec: \<^verbatim>\<open>new Group(el)\<close> of \<^verbatim>\<open>./elements/Group\<close>, a record holding
  a stable identifier and the group element. The identifier is the \<open>k\<close>-th draw of
  \<open>randomId\<close>.
\<close>

definition newGroup :: "deps \<Rightarrow> nat \<Rightarrow> node \<Rightarrow> group" where
  "newGroup D k el = \<lparr>group_id = randomId D k, group_element = el\<rparr>"

definition useId :: "node \<Rightarrow> string option" where
  "useId useEl = truthy (or_else (getAttribute useEl ''href'') (getAttribute useEl ''xlink:href''))"

fun walk ::
  "nat \<Rightarrow> deps \<Rightarrow> node \<Rightarrow> TreeWalker \<Rightarrow> group list \<Rightarrow> obj list \<times> nat \<Rightarrow> node option \<Rightarrow>
   outcome" where
  "walk 0 D doc tw groups st nx = Inl (RangeError, fst st)"
| "walk (Suc n) D doc tw groups st None = Inr st"
| "walk (Suc n) D doc tw groups st (Some nd) =
     (let name = nodeName nd; el = currentNode tw in
      if name = ''svg'' then
        walk n D doc (fst (nextNode tw)) groups st (snd (nextNode tw))
      else if name = ''g'' then
        (let inner = createTreeWalker el;
             nextGroups = groups @ [newGroup D (snd st) el]
         in case walk n D doc (fst (nextNode inner)) nextGroups (fst st, Suc (snd st))
                   (snd (nextNode inner)) of
              Inl thrown \<Rightarrow> Inl thrown
            | Inr st' \<Rightarrow> walk n D doc (fst (nextSibling tw)) groups st' (snd (nextSibling tw)))
      else if name = ''use'' then
        (case useId el of
           None \<Rightarrow> Inl (UnableToGetId, fst st)
         | Some ref \<Rightarrow>
             (case querySelector D doc ref of
                Inl e \<Rightarrow> Inl (e, fst st)
              | Inr found \<Rightarrow>
                  (case found of
                     None \<Rightarrow> Inl (UnableToFindDef ref, fst st)
                   | Some defEl \<Rightarrow>
                       (let finalEl = getDefElWithCorrectAttrs defEl el
                        in case walk n D doc (createTreeWalker finalEl) groups ([], snd st)
                                  (Some finalEl) of
                             Inl thrown \<Rightarrow> Inl (fst thrown, fst st)
                           | Inr temp \<Rightarrow>
                               (if fst temp = [] then Inl (UnableToCreateEx, fst st)
                                else walk n D doc (fst (nextNode tw)) groups
                                       (fst st @ [last (fst temp)], snd temp)
                                       (snd (nextNode tw)))))))
      else if name = ''circle'' then
        walk n D doc (fst (nextNode tw)) groups
          (fst st @ [circle_primitive D el groups], snd st) (snd (nextNode tw))
      else if name = ''ellipse'' then
        walk n D doc (fst (nextNode tw)) groups
          (fst st @ [ellipse_primitive D el groups], snd st) (snd (nextNode tw))
      else if name = ''line'' then
        walk n D doc (fst (nextNode tw)) groups st (snd (nextNode tw))
      else if name = ''polygon'' then
        (case polygon_primitive D el groups of
           Inl e \<Rightarrow> Inl (e, fst st)
         | Inr line \<Rightarrow>
             walk n D doc (fst (nextNode tw)) groups (fst st @ [line], snd st) (snd (nextNode tw)))
      else if name = ''polyline'' then
        (case polyline_primitive D el groups of
           Inl e \<Rightarrow> Inl (e, fst st)
         | Inr line \<Rightarrow>
             walk n D doc (fst (nextNode tw)) groups (fst st @ [line], snd st) (snd (nextNode tw)))
      else if name = ''text'' then
        (case text_primitives D doc el groups of
           Inl e \<Rightarrow> Inl (e, fst st)
         | Inr texts \<Rightarrow>
             walk n D doc (fst (nextNode tw)) groups (fst st @ texts, snd st) (snd (nextNode tw)))
      else if name = ''rect'' then
        walk n D doc (fst (nextNode tw)) groups
          (fst st @ [rect_primitive D el groups], snd st) (snd (nextNode tw))
      else if name = ''path'' then
        (case path_primitives D el groups (snd st) of
           Inl e \<Rightarrow> Inl (e, fst st)
         | Inr r \<Rightarrow>
             walk n D doc (fst (nextNode tw)) groups (fst st @ fst r, snd r) (snd (nextNode tw)))
      else if name \<in> set uncallable then Inl (TypeError, fst st)
      else Inr st)"

section \<open>A reference set of collaborators\<close>

text \<open>
  Modelled from the spec: the collaborators of section 6, which are not part of
  \<^verbatim>\<open>walker.ts\<close>, in the plainest form that meets their stated contracts. They serve to
  run the walker on concrete documents; the general theorems below hold for every \<open>deps\<close>.
  Numbers in attributes are unsigned decimal integers; a point list is written
  \<^verbatim>\<open>x,y x,y ...\<close>; a path's \<^verbatim>\<open>d\<close> string is a sequence of \<^verbatim>\<open>M\<close> commands, each followed
  by the points of one sub-polygon; identifiers are \<^verbatim>\<open>i\<close>, \<^verbatim>\<open>ii\<close>, \<^verbatim>\<open>iii\<close>, ...
  The document query knows two forms of selector: \<^verbatim>\<open>#name\<close> finds the first element with
  that \<^verbatim>\<open>id\<close> and is a syntax error when the name is empty or starts with a digit, as in
  CSS; any other string is read as a tag name. The matrix store rounds to the nearest
  single-precision number, ties to even (numbers beyond the single-precision range are
  outside the model).
\<close>

definition digit :: "char \<Rightarrow> nat option" where
  "digit c = (if c \<in> set ''0123456789'' then Some (of_char c - 48) else None)"

fun digits :: "nat \<Rightarrow> string \<Rightarrow> nat option" where
  "digits acc [] = Some acc"
| "digits acc (c # cs) = (case digit c of None \<Rightarrow> None | Some d \<Rightarrow> digits (10 * acc + d) cs)"

definition number :: "string \<Rightarrow> real option" where
  "number s = (if s = [] then None else map_option real (digits 0 s))"

fun split_on :: "char \<Rightarrow> string \<Rightarrow> string list" where
  "split_on c [] = [[]]"
| "split_on c (x # xs) =
     (if x = c then [] # split_on c xs
      else (case split_on c xs of [] \<Rightarrow> [[x]] | w # ws \<Rightarrow> (x # w) # ws))"

definition parse_point :: "string \<Rightarrow> point" where
  "parse_point s =
     (case map (\<lambda>w. case number w of None \<Rightarrow> 0 | Some v \<Rightarrow> v) (split_on CHR '','' s) of
        a # b # _ \<Rightarrow> (a, b)
      | _ \<Rightarrow> (0, 0))"

definition parse_points :: "string \<Rightarrow> point list" where
  "parse_points s = map parse_point (filter (\<lambda>w. w \<noteq> []) (split_on CHR '' '' s))"

definition ref_get :: "node \<Rightarrow> string \<Rightarrow> string option \<Rightarrow> string" where
  "ref_get el name backup =
     (case or_else (getAttribute el name) backup of None \<Rightarrow> [] | Some v \<Rightarrow> v)"

definition ref_getNum :: "node \<Rightarrow> string \<Rightarrow> real \<Rightarrow> real" where
  "ref_getNum el name backup = (case number (ref_get el name None) of None \<Rightarrow> backup | Some v \<Rightarrow> v)"

definition ref_presAttrs :: "node \<Rightarrow> obj" where
  "ref_presAttrs el =
     (case getAttribute el ''stroke'' of None \<Rightarrow> Map.empty | Some c \<Rightarrow> [''strokeColor'' \<mapsto> Str c])
     ++ (case getAttribute el ''stroke-width'' of
           None \<Rightarrow> Map.empty
         | Some w \<Rightarrow> [''strokeWidth'' \<mapsto> Num (ref_getNum el ''stroke-width'' 0)])
     ++ (case getAttribute el ''fill'' of None \<Rightarrow> Map.empty | Some c \<Rightarrow> [''backgroundColor'' \<mapsto> Str c])"

definition ref_groupAttrs :: "group list \<Rightarrow> obj" where
  "ref_groupAttrs groups = foldl (\<lambda>acc g. acc ++ ref_presAttrs (group_element g)) Map.empty groups"

definition ref_transformPoints :: "point list \<Rightarrow> mat4 \<Rightarrow> point list" where
  "ref_transformPoints ps m =
     map (\<lambda>(x, y). (m ! 0 * x + m ! 4 * y + m ! 12, m ! 1 * x + m ! 5 * y + m ! 13)) ps"

fun edge_sum :: "point list \<Rightarrow> real" where
  "edge_sum [] = 0"
| "edge_sum [(x1, y1)] = (0 - x1) * (0 + y1)"
| "edge_sum ((x1, y1) # (x2, y2) # ps) = (x2 - x1) * (y2 + y1) + edge_sum ((x2, y2) # ps)"

definition ref_windingOrder :: "point list \<Rightarrow> string" where
  "ref_windingOrder ps = (if edge_sum ps > 0 then ''clockwise'' else ''counterclockwise'')"

definition ref_dimensions :: "point list \<Rightarrow> real \<times> real" where
  "ref_dimensions ps =
     (if ps = [] then (0, 0)
      else (Max (set (map fst ps)) - Min (set (map fst ps)),
            Max (set (map snd ps)) - Min (set (map snd ps))))"

fun elementById :: "string \<Rightarrow> node list \<Rightarrow> node option" where
  "elementById name [] = None"
| "elementById name (Element t as cs # rest) =
     (if map_of as ''id'' = Some name then Some (Element t as cs)
      else (case elementById name cs of Some r \<Rightarrow> Some r | None \<Rightarrow> elementById name rest))"
| "elementById name (Text s # rest) = elementById name rest"
| "elementById name (Comment s # rest) = elementById name rest"
| "elementById name (Document cs # rest) = elementById name rest"

fun elementByTag :: "string \<Rightarrow> node list \<Rightarrow> node option" where
  "elementByTag name [] = None"
| "elementByTag name (Element t as cs # rest) =
     (if t = name then Some (Element t as cs)
      else (case elementByTag name cs of Some r \<Rightarrow> Some r | None \<Rightarrow> elementByTag name rest))"
| "elementByTag name (Text s # rest) = elementByTag name rest"
| "elementByTag name (Comment s # rest) = elementByTag name rest"
| "elementByTag name (Document cs # rest) = elementByTag name rest"

definition ref_querySelector :: "node \<Rightarrow> string \<Rightarrow> error + node option" where
  "ref_querySelector doc sel =
     (case sel of
        [] \<Rightarrow> Inl SyntaxError
      | c # name \<Rightarrow>
          if c = CHR ''#'' then
            (case name of
               [] \<Rightarrow> Inl SyntaxError
             | d # _ \<Rightarrow>
                 if digit d \<noteq> None then Inl SyntaxError
                 else Inr (elementById name (childNodes doc)))
          else Inr (elementByTag sel (childNodes doc)))"

definition ref_fround :: "real \<Rightarrow> real" where
  "ref_fround x =
     (if x = 0 then 0
      else
        (let e = max \<lfloor>log 2 \<bar>x\<bar>\<rfloor> (- 126);
             ulp = 2 powr (of_int e - 23);
             q = x / ulp;
             below = \<lfloor>q\<rfloor>;
             nearest =
               (if q - of_int below < 1 / 2 then below
                else if 1 / 2 < q - of_int below then below + 1
                else if even below then below
                else below + 1)
         in of_int nearest * ulp))"

definition ref_primitive :: "string \<Rightarrow> obj" where
  "ref_primitive kind =
     [''type'' \<mapsto> Str kind, ''strokeColor'' \<mapsto> Str ''#000000'',
      ''backgroundColor'' \<mapsto> Str ''transparent'', ''strokeWidth'' \<mapsto> Num 1,
      ''groupIds'' \<mapsto> Ids []]"

definition basic :: deps where
  "basic =
     \<lparr>getGroupAttrs = ref_groupAttrs,
      presAttrsToElementValues = ref_presAttrs,
      filterAttrsToElementValues = (\<lambda>el. Map.empty),
      pointsAttrToPoints = (\<lambda>el. if hasAttribute el ''points'' then parse_points (ref_get el ''points'' None) else []),
      has = hasAttribute,
      get = ref_get,
      getNum = ref_getNum,
      getTransformMatrix = (\<lambda>el groups. scaleTranslate 1 1 0 0),
      transformPoints = ref_transformPoints,
      pointsOnPath = (\<lambda>d. map parse_points (filter (\<lambda>w. w \<noteq> []) (split_on CHR ''M'' d))),
      getWindingOrder = ref_windingOrder,
      dimensionsFromPoints = ref_dimensions,
      randomId = (\<lambda>k. replicate (Suc k) CHR ''i''),
      createExRect = ref_primitive ''rectangle'',
      createExEllipse = ref_primitive ''ellipse'',
      createExLine = ref_primitive ''line'',
      createExDraw = ref_primitive ''draw'',
      createExText = ref_primitive ''text'',
      querySelector = ref_querySelector,
      innerHTML = (\<lambda>el. []),
      cssRules = (\<lambda>doc. None),
      fround = ref_fround\<rparr>"

section \<open>Notions used in the statements\<close>

text \<open>
  The winding order that the \<^verbatim>\<open>nonzero\<close> callback computes for one sub-polygon, and the
  primitives that the two callbacks build for it.
\<close>

definition windingOf :: "deps \<Rightarrow> mat4 \<Rightarrow> point list \<Rightarrow> string" where
  "windingOf D mat pointArr =
     (let tPoints = transformPoints D pointArr mat
      in getWindingOrder D (relativeTo (fst (hd tPoints)) (snd (hd tPoints)) tPoints))"

definition nonzero_at ::
  "deps \<Rightarrow> node \<Rightarrow> group list \<Rightarrow> mat4 \<Rightarrow> string \<Rightarrow> string \<Rightarrow> string \<Rightarrow> point list \<Rightarrow> obj" where
  "nonzero_at D el groups mat fillColor initialWindingOrder localGroup pointArr =
     (let tPoints = transformPoints D pointArr mat
      in nonzero_primitive D el groups tPoints (fst (hd tPoints)) (snd (hd tPoints))
           (backgroundOf fillColor initialWindingOrder (windingOf D mat pointArr)) localGroup)"

definition evenodd_at :: "deps \<Rightarrow> node \<Rightarrow> group list \<Rightarrow> mat4 \<Rightarrow> point list \<Rightarrow> obj" where
  "evenodd_at D el groups mat pointArr =
     (let tPoints = transformPoints D pointArr mat
      in evenodd_primitive D el groups tPoints (fst (hd tPoints)) (snd (hd tPoints)))"

text \<open>
  The nodes a walker can show, in document order: the accepted nodes of a subtree whose
  ancestors inside that subtree are accepted too. A rejected node hides its descendants.
  \<open>remaining\<close> lists what is still to come after the walker's current node.
\<close>

fun visible :: "node \<Rightarrow> node list" where
  "visible (Element t as cs) =
     (if t \<in> set SUPPORTED_TAGS then Element t as cs # concat (map visible cs) else [])"
| "visible (Text s) = []"
| "visible (Comment s) = []"
| "visible (Document cs) = []"

definition later :: "(node \<times> node list) list \<Rightarrow> node list" where
  "later up = concat (map (\<lambda>level. concat (map visible (snd level))) up)"

definition remaining :: "TreeWalker \<Rightarrow> node list" where
  "remaining tw = concat (map visible (childNodes (currentNode tw))) @ later (above tw)"

text \<open>The keys of the \<^verbatim>\<open>walkers\<close> object.\<close>

definition walkers :: "string list" where
  "walkers = [''svg'', ''g'', ''use'', ''circle'', ''ellipse'', ''line'', ''polygon'',
     ''polyline'', ''text'', ''rect'', ''path'']"

text \<open>The elements that the scene of a call holds when the call ends, by return or by throw.\<close>

definition scene_of :: "outcome \<Rightarrow> obj list" where
  "scene_of r = (case r of Inl thrown \<Rightarrow> snd thrown | Inr st \<Rightarrow> fst st)"

text \<open>
  Nine handlers have one shape: they build primitives from the current element (or none),
  push them and call \<^verbatim>\<open>walk\<close> with \<^verbatim>\<open>tw.nextNode()\<close>. \<open>pushed\<close> is what such a handler
  pushes, with the number of identifiers drawn when it has done so, or the error that it
  throws before it pushes anything.
\<close>

definition advancing :: "string list" where
  "advancing = [''svg'', ''circle'', ''ellipse'', ''line'', ''polygon'', ''polyline'', ''text'',
     ''rect'', ''path'']"

definition pushed ::
  "deps \<Rightarrow> node \<Rightarrow> string \<Rightarrow> node \<Rightarrow> group list \<Rightarrow> nat \<Rightarrow> error + (obj list \<times> nat)" where
  "pushed D doc name el groups k =
     (if name = ''circle'' then Inr ([circle_primitive D el groups], k)
      else if name = ''ellipse'' then Inr ([ellipse_primitive D el groups], k)
      else if name = ''polygon'' then
        (case polygon_primitive D el groups of Inl e \<Rightarrow> Inl e | Inr line \<Rightarrow> Inr ([line], k))
      else if name = ''polyline'' then
        (case polyline_primitive D el groups of Inl e \<Rightarrow> Inl e | Inr line \<Rightarrow> Inr ([line], k))
      else if name = ''text'' then
        (case text_primitives D doc el groups of Inl e \<Rightarrow> Inl e | Inr texts \<Rightarrow> Inr (texts, k))
      else if name = ''rect'' then Inr ([rect_primitive D el groups], k)
      else if name = ''path'' then path_primitives D el groups k
      else Inr ([], k))"

text \<open>
  Where each element of the scene comes from. \<open>origins\<close> follows the calls of \<^verbatim>\<open>walk\<close>
  and records, for every primitive appended to the scene of the call and in the order of
  the appends, the key of the handler that built it, the element it was built from and the
  group sequence of that handler call. The \<^verbatim>\<open>use\<close> handler builds nothing itself: the one
  primitive it appends keeps the origin it has in the temporary scene.
\<close>

type_synonym origin = "string \<times> node \<times> group list"

fun origins ::
  "nat \<Rightarrow> deps \<Rightarrow> node \<Rightarrow> TreeWalker \<Rightarrow> group list \<Rightarrow> obj list \<times> nat \<Rightarrow> node option \<Rightarrow>
   origin list" where
  "origins 0 D doc tw groups st nx = []"
| "origins (Suc n) D doc tw groups st None = []"
| "origins (Suc n) D doc tw groups st (Some nd) =
     (let name = nodeName nd; el = currentNode tw in
      if name = ''g'' then
        (let inner = createTreeWalker el;
             nextGroups = groups @ [newGroup D (snd st) el]
         in origins n D doc (fst (nextNode inner)) nextGroups (fst st, Suc (snd st))
              (snd (nextNode inner)) @
            (case walk n D doc (fst (nextNode inner)) nextGroups (fst st, Suc (snd st))
                    (snd (nextNode inner)) of
               Inl thrown \<Rightarrow> []
             | Inr st' \<Rightarrow> origins n D doc (fst (nextSibling tw)) groups st' (snd (nextSibling tw))))
      else if name = ''use'' then
        (case useId el of
           None \<Rightarrow> []
         | Some ref \<Rightarrow>
             (case querySelector D doc ref of
                Inl e \<Rightarrow> []
              | Inr found \<Rightarrow>
                  (case found of
                     None \<Rightarrow> []
                   | Some defEl \<Rightarrow>
                       (let finalEl = getDefElWithCorrectAttrs defEl el
                        in case walk n D doc (createTreeWalker finalEl) groups ([], snd st)
                                  (Some finalEl) of
                             Inl thrown \<Rightarrow> []
                           | Inr temp \<Rightarrow>
                               (if fst temp = [] then []
                                else last (origins n D doc (createTreeWalker finalEl) groups
                                             ([], snd st) (Some finalEl)) #
                                     origins n D doc (fst (nextNode tw)) groups
                                       (fst st @ [last (fst temp)], snd temp)
                                       (snd (nextNode tw)))))))
      else if name \<in> set advancing then
        (case pushed D doc name el groups (snd st) of
           Inl e \<Rightarrow> []
         | Inr r \<Rightarrow>
             replicate (length (fst r)) (name, el, groups) @
             origins n D doc (fst (nextNode tw)) groups (fst st @ fst r, snd r) (snd (nextNode tw)))
      else [])"

text \<open>
  \<open>placed D groups k e og\<close>: the primitive \<open>e\<close> with origin \<open>og\<close> was built under
  \<open>groups\<close> extended by groups whose identifiers were drawn at \<open>k\<close> or later; if a circle
  or ellipse handler built it, it lists the identifiers of exactly that sequence; if the
  path handler built it with fill rule \<^verbatim>\<open>nonzero\<close>, it lists one identifier, drawn after
  \<open>k\<close>.
\<close>

definition placed :: "deps \<Rightarrow> group list \<Rightarrow> nat \<Rightarrow> obj \<Rightarrow> origin \<Rightarrow> bool" where
  "placed D groups k e og =
     (case og of (name, el, gs) \<Rightarrow>
        (\<exists>more. gs = groups @ more \<and> (\<forall>g \<in> set more. \<exists>j\<ge>k. group_id g = randomId D j))
      \<and> (name = ''circle'' \<or> name = ''ellipse'' \<longrightarrow>
           e ''groupIds'' = Some (Ids (map group_id gs)))
      \<and> (name = ''path'' \<and> get D el ''fill-rule'' (Some ''nonzero'') = ''nonzero'' \<longrightarrow>
           (\<exists>j>k. e ''groupIds'' = Some (Ids [randomId D j]))))"




section \<open>Example documents\<close>

text \<open>Concrete elements and documents on which the statements below are evaluated.\<close>

definition redRect :: node where
  "redRect = Element ''rect'' [(''id'', ''t''), (''fill'', ''red'')] []"

definition useClassId :: node where
  "useClassId = Element ''use'' [(''href'', ''#t''), (''class'', ''id'')] []"

definition bareRect :: node where
  "bareRect = Element ''rect'' [(''fill'', ''red'')] []"

definition useNamed :: node where
  "useNamed = Element ''use'' [(''id'', ''u''), (''href'', ''rect'')] []"

definition openLine :: node where
  "openLine = Element ''polyline'' [(''points'', ''5,5 10,0 10,10''), (''fill'', ''none'')] []"

definition filledLine :: node where
  "filledLine = Element ''polyline'' [(''points'', ''5,5 10,0 10,10''), (''fill'', ''red'')] []"

definition twoLoops :: node where
  "twoLoops = Element ''path''
     [(''id'', ''p''), (''d'', ''M0,0 10,0 10,10M2,2 2,8 8,8''), (''fill'', ''red'')] []"

definition strokedPath :: node where
  "strokedPath = Element ''path''
     [(''d'', ''M0,0 10,0 10,10''), (''stroke'', ''#ff0000''), (''stroke-width'', ''3'')] []"

definition evenoddPath :: node where
  "evenoddPath = Element ''path'' [(''d'', ''M0,0 10,0 10,10''), (''fill-rule'', ''evenodd'')] []"

definition usePath :: node where
  "usePath = Element ''use'' [(''href'', ''#p''), (''id'', ''u'')] []"

definition useNothing :: node where
  "useNothing = Element ''use'' [(''x'', ''5'')] []"

definition useEmpty :: node where
  "useEmpty = Element ''use'' [(''href'', [])] []"

definition useMissing :: node where
  "useMissing = Element ''use'' [(''href'', ''#zz'')] []"

definition useGroup :: node where
  "useGroup = Element ''use'' [(''xlink:href'', ''#grp'')] []"

definition useDoc :: node where
  "useDoc = Document
     [Element ''svg'' []
        [usePath, useNothing, useEmpty, useMissing, useGroup,
         Element ''g'' [(''id'', ''grp'')] [Element ''circle'' [(''r'', ''5'')] []],
         Element ''defs'' [] [twoLoops]]]"


definition groupedPath :: node where
  "groupedPath = Element ''g'' [] [Element ''path'' [(''d'', ''M0,0 10,0 10,10'')] []]"

definition firstGroup :: node where
  "firstGroup = Element ''g'' []
     [Element ''circle'' [(''r'', ''5'')] [], Element ''rect'' [] [], Element ''ellipse'' [] []]"

definition secondGroup :: node where
  "secondGroup = Element ''g'' [] [Element ''circle'' [(''r'', ''2'')] []]"

definition groupsDoc :: node where
  "groupsDoc = Element ''svg'' [] [firstGroup, secondGroup]"

definition atFirstGroup :: TreeWalker where
  "atFirstGroup = \<lparr>currentNode = firstGroup, above = [(groupsDoc, [secondGroup])]\<rparr>"

definition useLine :: node where
  "useLine = Element ''use'' [(''href'', ''#pl'')] []"

definition useDigit :: node where
  "useDigit = Element ''use'' [(''href'', ''#1'')] []"

definition useProto :: node where
  "useProto = Element ''use'' [(''href'', ''#pr'')] []"

definition lineDoc :: node where
  "lineDoc = Document
     [Element ''svg'' []
        [Element ''circle'' [(''r'', ''5'')] [], useLine, Element ''polyline'' [(''id'', ''pl'')] []]]"

definition digitDoc :: node where
  "digitDoc = Document
     [Element ''svg'' [] [Element ''circle'' [(''r'', ''5'')] [], useDigit]]"

definition emptyDoc :: node where
  "emptyDoc = Document
     [Element ''svg'' [] [Element ''circle'' [(''r'', ''5'')] [], useEmpty]]"

definition protoDoc :: node where
  "protoDoc = Document
     [Element ''svg'' [] [useProto, Element ''__proto__'' [(''id'', ''pr'')] []]]"

definition mergedLoops :: node where
  "mergedLoops = Element ''path'' [(''id'', ''p''), (''d'', ''M0,0 10,0 10,10M2,2 2,8 8,8''),
       (''fill'', ''red''), (''href'', ''#p'')] []"





section \<open>Evaluating the reference collaborators\<close>

lemmas merge_run = getDefElWithCorrectAttrs_def mergeAttr_def skippedUseAttrs_def
  allwaysPassedUseAttrs_def hasAttribute_def getAttribute_def or_else_def truthy_def

lemma basic_sel:
  "getGroupAttrs basic = ref_groupAttrs"
  "presAttrsToElementValues basic = ref_presAttrs"
  "filterAttrsToElementValues basic = (\<lambda>el. Map.empty)"
  "pointsAttrToPoints basic =
     (\<lambda>el. if hasAttribute el ''points'' then parse_points (ref_get el ''points'' None) else [])"
  "has basic = hasAttribute"
  "get basic = ref_get"
  "getNum basic = ref_getNum"
  "getTransformMatrix basic = (\<lambda>el groups. scaleTranslate 1 1 0 0)"
  "transformPoints basic = ref_transformPoints"
  "pointsOnPath basic = (\<lambda>d. map parse_points (filter (\<lambda>w. w \<noteq> []) (split_on CHR ''M'' d)))"
  "getWindingOrder basic = ref_windingOrder"
  "dimensionsFromPoints basic = ref_dimensions"
  "randomId basic = (\<lambda>k. replicate (Suc k) CHR ''i'')"
  "createExRect basic = ref_primitive ''rectangle''"
  "createExEllipse basic = ref_primitive ''ellipse''"
  "createExLine basic = ref_primitive ''line''"
  "createExDraw basic = ref_primitive ''draw''"
  "createExText basic = ref_primitive ''text''"
  "querySelector basic = ref_querySelector"
  "fround basic = ref_fround"
  by (simp_all add: basic_def)

lemma ref_transform_id: "ref_transformPoints ps (scaleTranslate 1 1 0 0) = ps"
  by (induction ps) (auto simp: ref_transformPoints_def scaleTranslate_def)

lemmas attr_run = ref_get_def getAttribute_def hasAttribute_def or_else_def truthy_def

lemmas parse_run = parse_points_def parse_point_def number_def digit_def

section \<open>Reference merging\<close>

text \<open>
  C2 (the code departs from the claim). The claim has the merge skip the referencing
  element's \<^verbatim>\<open>id\<close> attribute and adopt every other attribute the template lacks. The
  reducer tests the attribute's value, not its name, against \<^verbatim>\<open>["id"]\<close>: on the template
  \<^verbatim>\<open><rect id="t" fill="red"/>\<close> and the instance \<^verbatim>\<open><use href="#t" class="id"/>\<close> the
  attribute \<^verbatim>\<open>class="id"\<close> is dropped although the template has no \<^verbatim>\<open>class\<close>; and on a
  template without \<^verbatim>\<open>id\<close> the instance's \<^verbatim>\<open>id="u"\<close> is copied into the merged element.
\<close>

theorem merge_skips_by_value:
  "getDefElWithCorrectAttrs redRect useClassId =
     Element ''rect'' [(''id'', ''t''), (''fill'', ''red''), (''href'', ''#t'')] []
   \<and> getAttribute useClassId ''class'' = Some ''id''
   \<and> getAttribute redRect ''class'' = None
   \<and> getAttribute (getDefElWithCorrectAttrs redRect useClassId) ''class'' = None
   \<and> getAttribute (getDefElWithCorrectAttrs bareRect useNamed) ''id'' = Some ''u''"
  by (simp add: redRect_def useClassId_def bareRect_def useNamed_def merge_run)

section \<open>Polygon and polyline\<close>

lemma relativeTo_nth:
  "i < length ps \<Longrightarrow> relativeTo x y ps ! i = (fst (ps ! i) - x, snd (ps ! i) - y)"
  by (simp add: relativeTo_def case_prod_unfold)

lemma relativeTo_length: "length (relativeTo x y ps) = length ps"
  by (simp add: relativeTo_def)

lemma line_facts:
  "transformPoints basic (pointsAttrToPoints basic openLine) (getTransformMatrix basic openLine [])
     = (5, 5) # [(10, 0), (10, 10)]"
  "transformPoints basic (pointsAttrToPoints basic filledLine) (getTransformMatrix basic filledLine [])
     = (5, 5) # [(10, 0), (10, 10)]"
  "has basic openLine ''fill''" "get basic openLine ''fill'' None = ''none''"
  "has basic filledLine ''fill''" "get basic filledLine ''fill'' None = ''red''"
  by (simp_all add: basic_sel openLine_def filledLine_def attr_run parse_run ref_transform_id)

lemma relativeTo_append_nth:
  "i < length ps \<Longrightarrow> (relativeTo x y ps @ c) ! i = (fst (ps ! i) - x, snd (ps ! i) - y)"
  by (simp add: nth_append relativeTo_length relativeTo_nth)

lemma relativeTo_append_zero: "(relativeTo x y ((x, y) # ts) @ c) ! 0 = (0, 0)"
  by (simp add: relativeTo_def)

text \<open>
  C7. A polyline whose \<^verbatim>\<open>fill\<close> attribute is \<^verbatim>\<open>"none"\<close> emits exactly the re-baselined
  points, with no closing point; a polyline whose \<^verbatim>\<open>fill\<close> is absent or has another value
  emits them followed by \<open>(0, 0)\<close>; the polygon handler always appends \<open>(0, 0)\<close>, whatever
  the \<^verbatim>\<open>fill\<close> attribute. (On an empty transformed point list both handlers throw.)
\<close>

theorem closing_point:
  assumes "transformPoints D (pointsAttrToPoints D el) (getTransformMatrix D el groups) = p # ts"
  shows "(\<exists>ln. polyline_primitive D el groups = Inr ln \<and>
            ln ''points'' = Some (Pts (relativeTo (fst p) (snd p) (p # ts) @
               (if has D el ''fill'' \<and> get D el ''fill'' None = ''none'' then [] else [(0, 0)]))))
       \<and> (\<exists>ln. polygon_primitive D el groups = Inr ln \<and>
            ln ''points'' = Some (Pts (relativeTo (fst p) (snd p) (p # ts) @ [(0, 0)])))"
  using assms by (cases p) (auto simp: polyline_primitive_def polygon_primitive_def Let_def)

theorem closing_point_witness:
  "transformPoints basic (pointsAttrToPoints basic openLine) (getTransformMatrix basic openLine [])
     = (5, 5) # [(10, 0), (10, 10)]
   \<and> (\<exists>ln. polyline_primitive basic openLine [] = Inr ln \<and>
          ln ''points'' = Some (Pts [(0, 0), (5, -5), (5, 5)]))
   \<and> (\<exists>ln. polygon_primitive basic openLine [] = Inr ln \<and>
          ln ''points'' = Some (Pts [(0, 0), (5, -5), (5, 5), (0, 0)]))
   \<and> (\<exists>ln. polyline_primitive basic filledLine [] = Inr ln \<and>
          ln ''points'' = Some (Pts [(0, 0), (5, -5), (5, 5), (0, 0)]))"
  using closing_point[OF line_facts(1)] closing_point[OF line_facts(2)]
  by (simp add: line_facts relativeTo_def)

text \<open>
  C8. For a polygon or polyline whose transformed point list is not empty, with first
  transformed point \<open>(x, y)\<close>: the first emitted point is \<open>(0, 0)\<close>, the emitted point at
  every index of the transformed list is the transformed point minus \<open>(x, y)\<close>, and the
  primitive's \<^verbatim>\<open>x\<close> and \<^verbatim>\<open>y\<close> are \<open>x\<close> and \<open>y\<close>.
\<close>

theorem rebaselined:
  assumes "transformPoints D (pointsAttrToPoints D el) (getTransformMatrix D el groups) = (x, y) # ts"
  shows "(\<exists>ln pts. polygon_primitive D el groups = Inr ln \<and> ln ''points'' = Some (Pts pts)
            \<and> ln ''x'' = Some (Num x) \<and> ln ''y'' = Some (Num y) \<and> pts ! 0 = (0, 0)
            \<and> (\<forall>i < length ((x, y) # ts).
                  pts ! i = (fst (((x, y) # ts) ! i) - x, snd (((x, y) # ts) ! i) - y)))
       \<and> (\<exists>ln pts. polyline_primitive D el groups = Inr ln \<and> ln ''points'' = Some (Pts pts)
            \<and> ln ''x'' = Some (Num x) \<and> ln ''y'' = Some (Num y) \<and> pts ! 0 = (0, 0)
            \<and> (\<forall>i < length ((x, y) # ts).
                  pts ! i = (fst (((x, y) # ts) ! i) - x, snd (((x, y) # ts) ! i) - y)))"
proof (intro conjI)
  show "\<exists>ln pts. polygon_primitive D el groups = Inr ln \<and> ln ''points'' = Some (Pts pts)
            \<and> ln ''x'' = Some (Num x) \<and> ln ''y'' = Some (Num y) \<and> pts ! 0 = (0, 0)
            \<and> (\<forall>i < length ((x, y) # ts).
                  pts ! i = (fst (((x, y) # ts) ! i) - x, snd (((x, y) # ts) ! i) - y))"
    using assms relativeTo_append_nth[of _ "(x, y) # ts" x y "[(0, 0)]"]
    by (simp add: polygon_primitive_def Let_def relativeTo_append_zero)
  show "\<exists>ln pts. polyline_primitive D el groups = Inr ln \<and> ln ''points'' = Some (Pts pts)
            \<and> ln ''x'' = Some (Num x) \<and> ln ''y'' = Some (Num y) \<and> pts ! 0 = (0, 0)
            \<and> (\<forall>i < length ((x, y) # ts).
                  pts ! i = (fst (((x, y) # ts) ! i) - x, snd (((x, y) # ts) ! i) - y))"
    using assms relativeTo_append_nth[of _ "(x, y) # ts" x y "[(0, 0)]"]
      relativeTo_append_nth[of _ "(x, y) # ts" x y "[]"]
    by (simp add: polyline_primitive_def Let_def relativeTo_append_zero
          relativeTo_append_zero[where c = "[]", simplified])
qed

theorem rebaselined_witness:
  "transformPoints basic (pointsAttrToPoints basic openLine) (getTransformMatrix basic openLine [])
     = (5, 5) # [(10, 0), (10, 10)]
   \<and> (\<exists>ln pts. polygon_primitive basic openLine [] = Inr ln \<and> ln ''points'' = Some (Pts pts)
          \<and> ln ''x'' = Some (Num 5) \<and> ln ''y'' = Some (Num 5) \<and> pts ! 0 = (0, 0)
          \<and> (\<forall>i < length ((5, 5) # [(10, 0), (10, 10)] :: point list).
                pts ! i = (fst (((5, 5) # [(10, 0), (10, 10)] :: point list) ! i) - 5,
                           snd (((5, 5) # [(10, 0), (10, 10)] :: point list) ! i) - 5)))
   \<and> (\<exists>ln pts. polyline_primitive basic openLine [] = Inr ln \<and> ln ''points'' = Some (Pts pts)
          \<and> ln ''x'' = Some (Num 5) \<and> ln ''y'' = Some (Num 5) \<and> pts ! 0 = (0, 0)
          \<and> (\<forall>i < length ((5, 5) # [(10, 0), (10, 10)] :: point list).
                pts ! i = (fst (((5, 5) # [(10, 0), (10, 10)] :: point list) ! i) - 5,
                           snd (((5, 5) # [(10, 0), (10, 10)] :: point list) ! i) - 5)))"
  using rebaselined[OF line_facts(1)] line_facts(1) by (intro conjI) (elim conjE, assumption)+

section \<open>Paths\<close>

lemma nonzero_map_later:
  "0 < idx \<Longrightarrow> \<forall>s \<in> set subs. transformPoints D s mat \<noteq> [] \<Longrightarrow>
   nonzero_map D el groups mat fc idx iwo lg k subs =
     Inr (map (nonzero_at D el groups mat fc iwo lg) subs, k)"
  by (induction subs arbitrary: idx) (simp_all add: Let_def nonzero_at_def windingOf_def)

lemma nonzero_map_first:
  "\<forall>s \<in> set subs. transformPoints D s mat \<noteq> [] \<Longrightarrow>
   nonzero_map D el groups mat fc 0 iwo lg k subs =
     Inr (map (nonzero_at D el groups mat fc (windingOf D mat (hd subs)) (randomId D k)) subs,
          if subs = [] then k else Suc k)"
  by (cases subs) (simp_all add: Let_def nonzero_map_later, simp add: nonzero_at_def windingOf_def Let_def)

lemma nonzero_map_fails:
  "s \<in> set subs \<Longrightarrow> transformPoints D s mat = [] \<Longrightarrow>
   nonzero_map D el groups mat fc idx iwo lg k subs = Inl TypeError"
  by (induction subs arbitrary: idx iwo lg k) (auto simp: Let_def)

lemma evenodd_map_later:
  "0 < idx \<Longrightarrow> \<forall>s \<in> set subs. transformPoints D s mat \<noteq> [] \<Longrightarrow>
   evenodd_map D el groups mat idx lg k subs = Inr (map (evenodd_at D el groups mat) subs, k)"
  by (induction subs arbitrary: idx) (simp_all add: Let_def evenodd_at_def)

lemma evenodd_map_first:
  "\<forall>s \<in> set subs. transformPoints D s mat \<noteq> [] \<Longrightarrow>
   evenodd_map D el groups mat 0 lg k subs =
     Inr (map (evenodd_at D el groups mat) subs, if subs = [] then k else Suc k)"
  by (cases subs) (simp_all add: Let_def evenodd_map_later, simp add: evenodd_at_def Let_def)

lemma evenodd_map_fails:
  "s \<in> set subs \<Longrightarrow> transformPoints D s mat = [] \<Longrightarrow>
   evenodd_map D el groups mat idx lg k subs = Inl TypeError"
  by (induction subs arbitrary: idx lg k) (auto simp: Let_def)

lemma path_nonzero:
  assumes "get D el ''fill-rule'' (Some ''nonzero'') = ''nonzero''"
      and "\<forall>s \<in> set (pointsOnPath D (get D el ''d'' None)).
             transformPoints D s (getTransformMatrix D el groups) \<noteq> []"
  shows "path_primitives D el groups k =
           Inr (map (nonzero_at D el groups (getTransformMatrix D el groups)
                      (get D el ''fill'' (Some ''transparent''))
                      (windingOf D (getTransformMatrix D el groups)
                         (hd (pointsOnPath D (get D el ''d'' None))))
                      (randomId D (Suc k)))
                  (pointsOnPath D (get D el ''d'' None)),
                if pointsOnPath D (get D el ''d'' None) = [] then Suc k else Suc (Suc k))"
  using assms by (simp add: path_primitives_def Let_def nonzero_map_first)

lemma path_evenodd:
  assumes "get D el ''fill-rule'' (Some ''nonzero'') = ''evenodd''"
      and "\<forall>s \<in> set (pointsOnPath D (get D el ''d'' None)).
             transformPoints D s (getTransformMatrix D el groups) \<noteq> []"
  shows "path_primitives D el groups k =
           Inr (map (evenodd_at D el groups (getTransformMatrix D el groups))
                  (pointsOnPath D (get D el ''d'' None)),
                if pointsOnPath D (get D el ''d'' None) = [] then Suc k else Suc (Suc k))"
  using assms by (simp add: path_primitives_def Let_def evenodd_map_first)

lemma nonzero_at_fields:
  "nonzero_at D el groups mat fc iwo lg pa ''backgroundColor'' =
     Some (Str (backgroundOf fc iwo (windingOf D mat pa)))"
  "nonzero_at D el groups mat fc iwo lg pa ''groupIds'' = Some (Ids [lg])"
  "nonzero_at D el groups mat fc iwo lg pa ''strokeWidth'' =
     (case presAttrs D el groups ''strokeWidth'' of None \<Rightarrow> Some (Num 0) | Some v \<Rightarrow> Some v)"
  "nonzero_at D el groups mat fc iwo lg pa ''strokeColor'' =
     (case presAttrs D el groups ''strokeColor'' of None \<Rightarrow> Some (Str ''#00000000'') | Some v \<Rightarrow> Some v)"
  by (simp_all add: nonzero_at_def nonzero_primitive_def Let_def map_add_def split: option.splits)

lemma evenodd_at_fields:
  "evenodd_at D el groups mat pa ''groupIds'' = (createExDraw D ++ presAttrs D el groups) ''groupIds''"
  "evenodd_at D el groups mat pa ''backgroundColor'' = (createExDraw D ++ presAttrs D el groups) ''backgroundColor''"
  "evenodd_at D el groups mat pa ''strokeColor'' = (createExDraw D ++ presAttrs D el groups) ''strokeColor''"
  "evenodd_at D el groups mat pa ''strokeWidth'' = (createExDraw D ++ presAttrs D el groups) ''strokeWidth''"
  by (simp_all add: evenodd_at_def evenodd_primitive_def Let_def)

lemma twoLoops_facts:
  "get basic twoLoops ''fill-rule'' (Some ''nonzero'') = ''nonzero''"
  "get basic twoLoops ''fill'' (Some ''transparent'') = ''red''"
  "pointsOnPath basic (get basic twoLoops ''d'' None) = [[(0,0),(10,0),(10,10)], [(2,2),(2,8),(8,8)]]"
  "transformPoints basic ps (getTransformMatrix basic el groups) = ps"
  by (simp_all add: basic_sel twoLoops_def attr_run parse_run ref_transform_id)

lemma twoLoops_winding:
  "windingOf basic (getTransformMatrix basic el groups) [(0,0),(10,0),(10,10)] = ''counterclockwise''"
  "windingOf basic (getTransformMatrix basic el groups) [(2,2),(2,8),(8,8)] = ''clockwise''"
  by (simp_all add: windingOf_def Let_def basic_sel ref_transform_id relativeTo_def ref_windingOrder_def)

lemma strokedPath_facts:
  "get basic strokedPath ''fill-rule'' (Some ''nonzero'') = ''nonzero''"
  "pointsOnPath basic (get basic strokedPath ''d'' None) = [[(0,0),(10,0),(10,10)]]"
  "presAttrs basic strokedPath [] ''strokeWidth'' = Some (Num 3)"
  "presAttrs basic strokedPath [] ''strokeColor'' = Some (Str ''#ff0000'')"
  by (simp_all add: basic_sel strokedPath_def attr_run parse_run presAttrs_def ref_presAttrs_def
        ref_groupAttrs_def ref_getNum_def)

lemma evenoddPath_facts:
  "get basic evenoddPath ''fill-rule'' (Some ''nonzero'') = ''evenodd''"
  "pointsOnPath basic (get basic evenoddPath ''d'' None) = [[(0,0),(10,0),(10,10)]]"
  "(createExDraw basic ++ presAttrs basic evenoddPath []) ''groupIds'' = Some (Ids [])"
  by (simp_all add: basic_sel evenoddPath_def attr_run parse_run presAttrs_def ref_presAttrs_def
        ref_groupAttrs_def ref_primitive_def)

lemma twoLoops_pres:
  "presAttrs basic twoLoops [] ''strokeWidth'' = None"
  "presAttrs basic twoLoops [] ''strokeColor'' = None"
  by (simp_all add: basic_sel twoLoops_def attr_run presAttrs_def ref_presAttrs_def
        ref_groupAttrs_def)

text \<open>
  C1. For a path whose fill rule is \<^verbatim>\<open>nonzero\<close> (also by default) and whose sub-polygons
  all have points, one primitive is emitted per sub-polygon; a sub-polygon whose winding
  order differs from that of the first one gets the background colour \<^verbatim>\<open>#FFFFFF\<close>
  whatever the declared fill, and one whose winding order equals it gets the declared fill
  colour, \<^verbatim>\<open>none\<close> becoming \<^verbatim>\<open>transparent\<close>.
\<close>

theorem hole_colour:
  assumes "get D el ''fill-rule'' (Some ''nonzero'') = ''nonzero''"
      and "\<forall>s \<in> set (pointsOnPath D (get D el ''d'' None)).
             transformPoints D s (getTransformMatrix D el groups) \<noteq> []"
      and "i < length (pointsOnPath D (get D el ''d'' None))"
  shows "\<exists>prims k'. path_primitives D el groups k = Inr (prims, k') \<and>
           length prims = length (pointsOnPath D (get D el ''d'' None)) \<and>
           (prims ! i) ''backgroundColor'' =
             Some (Str (if windingOf D (getTransformMatrix D el groups) (pointsOnPath D (get D el ''d'' None) ! i)
                          \<noteq> windingOf D (getTransformMatrix D el groups) (pointsOnPath D (get D el ''d'' None) ! 0)
                        then ''#FFFFFF''
                        else if get D el ''fill'' (Some ''transparent'') = ''none'' then ''transparent''
                        else get D el ''fill'' (Some ''transparent'')))"
proof -
  from assms(3) have ne: "pointsOnPath D (get D el ''d'' None) \<noteq> []" by auto
  then have hd0: "hd (pointsOnPath D (get D el ''d'' None)) = pointsOnPath D (get D el ''d'' None) ! 0"
    by (simp add: hd_conv_nth)
  show ?thesis
    using assms(3) ne hd0
    by (auto simp: path_nonzero[OF assms(1,2)] nonzero_at_fields backgroundOf_def Let_def)
qed

theorem hole_colour_witness:
  "get basic twoLoops ''fill-rule'' (Some ''nonzero'') = ''nonzero''
   \<and> (\<exists>prims k'. path_primitives basic twoLoops [] 0 = Inr (prims, k') \<and> length prims = 2
        \<and> (prims ! 0) ''backgroundColor'' = Some (Str ''red''))
   \<and> (\<exists>prims k'. path_primitives basic twoLoops [] 0 = Inr (prims, k') \<and> length prims = 2
        \<and> (prims ! 1) ''backgroundColor'' = Some (Str ''#FFFFFF''))"
  using hole_colour[of basic twoLoops "[]" 0 0] hole_colour[of basic twoLoops "[]" 1 0]
  by (simp add: twoLoops_facts twoLoops_winding numeral_2_eq_2)

text \<open>
  C3 (the claim as stated fails). The two stroke fields are written before the spread of
  \<open>presAttrs\<close>, so a stroke declared on the path wins over them: the path
  \<^verbatim>\<open><path d="M0,0 10,0 10,10" stroke="#ff0000" stroke-width="3"/>\<close> is emitted with stroke
  width 3 and stroke colour \<^verbatim>\<open>#ff0000\<close>.
\<close>

theorem stroke_declared_wins:
  "get basic strokedPath ''fill-rule'' (Some ''nonzero'') = ''nonzero''
   \<and> path_primitives basic strokedPath [] 0 \<noteq> Inl TypeError
   \<and> (fst (projr (path_primitives basic strokedPath [] 0)) ! 0) ''strokeWidth'' = Some (Num 3)
   \<and> (fst (projr (path_primitives basic strokedPath [] 0)) ! 0) ''strokeColor'' = Some (Str ''#ff0000'')"
  by (simp add: path_nonzero strokedPath_facts twoLoops_facts(4) nonzero_at_fields)

text \<open>
  C3, amended. For a path whose fill rule is \<^verbatim>\<open>nonzero\<close> and whose sub-polygons all have
  points, every emitted primitive carries the one identifier drawn at the first
  sub-polygon as its only group identifier, and its stroke width and stroke colour are
  those that the presentation attributes of the element and its groups resolve to, being
  \<open>0\<close> and \<^verbatim>\<open>#00000000\<close> only where they resolve to none.
\<close>

theorem nonzero_group_and_stroke:
  assumes "get D el ''fill-rule'' (Some ''nonzero'') = ''nonzero''"
      and "\<forall>s \<in> set (pointsOnPath D (get D el ''d'' None)).
             transformPoints D s (getTransformMatrix D el groups) \<noteq> []"
      and "i < length (pointsOnPath D (get D el ''d'' None))"
  shows "\<exists>prims k'. path_primitives D el groups k = Inr (prims, k')
           \<and> length prims = length (pointsOnPath D (get D el ''d'' None))
           \<and> k' = Suc (Suc k)
           \<and> (prims ! i) ''groupIds'' = Some (Ids [randomId D (Suc k)])
           \<and> (prims ! i) ''strokeWidth'' =
               (case presAttrs D el groups ''strokeWidth'' of None \<Rightarrow> Some (Num 0) | Some v \<Rightarrow> Some v)
           \<and> (prims ! i) ''strokeColor'' =
               (case presAttrs D el groups ''strokeColor'' of
                  None \<Rightarrow> Some (Str ''#00000000'') | Some v \<Rightarrow> Some v)"
proof -
  from assms(3) have ne: "pointsOnPath D (get D el ''d'' None) \<noteq> []" by auto
  show ?thesis
    using assms(3) ne
    by (simp add: path_nonzero[OF assms(1,2)] nonzero_at_fields)
qed

theorem nonzero_group_and_stroke_witness:
  "get basic twoLoops ''fill-rule'' (Some ''nonzero'') = ''nonzero''
   \<and> (\<exists>prims k'. path_primitives basic twoLoops [] 0 = Inr (prims, k') \<and> length prims = 2
        \<and> k' = 2
        \<and> (prims ! 1) ''groupIds'' = Some (Ids [''ii''])
        \<and> (prims ! 1) ''strokeWidth'' = Some (Num 0)
        \<and> (prims ! 1) ''strokeColor'' = Some (Str ''#00000000''))
   \<and> (\<exists>prims k'. path_primitives basic strokedPath [] 0 = Inr (prims, k') \<and> length prims = 1
        \<and> k' = 2
        \<and> (prims ! 0) ''groupIds'' = Some (Ids [''ii''])
        \<and> (prims ! 0) ''strokeWidth'' = Some (Num 3)
        \<and> (prims ! 0) ''strokeColor'' = Some (Str ''#ff0000''))"
  using nonzero_group_and_stroke[of basic twoLoops "[]" 1 0]
        nonzero_group_and_stroke[of basic strokedPath "[]" 0 0]
  by (simp add: twoLoops_facts twoLoops_pres strokedPath_facts basic_sel(13) numeral_2_eq_2)

text \<open>
  C4 (the code departs from the claim). In the \<^verbatim>\<open>evenodd\<close> branch the identifier is
  drawn at the first sub-polygon but the object built has no \<^verbatim>\<open>groupIds\<close> entry: on
  \<^verbatim>\<open><path d="M0,0 10,0 10,10" fill-rule="evenodd"/>\<close> two identifiers are drawn, the second
  being \<^verbatim>\<open>ii\<close>, and the primitive keeps the empty group list of the default constructor.
\<close>

theorem evenodd_drops_group:
  "get basic evenoddPath ''fill-rule'' (Some ''nonzero'') = ''evenodd''
   \<and> path_primitives basic evenoddPath [] 0 =
        Inr ([evenodd_at basic evenoddPath [] (getTransformMatrix basic evenoddPath []) [(0,0),(10,0),(10,10)]], 2)
   \<and> randomId basic 1 = ''ii''
   \<and> evenodd_at basic evenoddPath [] (getTransformMatrix basic evenoddPath []) [(0,0),(10,0),(10,10)] ''groupIds''
        = Some (Ids [])"
  by (simp add: path_evenodd evenoddPath_facts twoLoops_facts(4) evenodd_at_fields basic_sel(13))

section \<open>The tree walker passes over rejected subtrees\<close>

lemma visible_eq: "visible n = (if nodeValidator n then n # concat (map visible (childNodes n)) else [])"
  by (cases n) (simp_all add: nodeValidator_def)

lemma later_simps:
  "later [] = []"
  "later ((p, rest) # up) = concat (map visible rest) @ later up"
  by (simp_all add: later_def)

lemmas remaining_later = remaining_def

lemma following_later:
  "(case following up of
      None \<Rightarrow> later up = []
    | Some tw' \<Rightarrow> later up = currentNode tw' # remaining tw')"
proof (induction up rule: following.induct)
  case 1
  then show ?case by (simp add: later_simps)
next
  case (2 parent up)
  then show ?case by (simp add: later_simps split: option.splits)
next
  case (3 parent s rest up)
  show ?case
  proof (cases "nodeValidator s")
    case True
    then show ?thesis
      by (simp add: later_simps remaining_later visible_eq[of s])
  next
    case False
    then show ?thesis using 3
      by (simp add: later_simps visible_eq[of s] split: option.splits)
  qed
qed

lemma nextNode_step_remaining:
  "(case nextNode_step tw of
      None \<Rightarrow> remaining tw = []
    | Some tw' \<Rightarrow> remaining tw = currentNode tw' # remaining tw')"
proof (cases "childNodes (currentNode tw)")
  case Nil
  then show ?thesis
    using following_later[of "above tw"]
    by (simp add: nextNode_step_def remaining_later split: option.splits)
next
  case (Cons c cs)
  show ?thesis
  proof (cases "nodeValidator c")
    case True
    then show ?thesis using Cons
      by (simp add: nextNode_step_def remaining_later later_simps visible_eq[of c])
  next
    case False
    then show ?thesis using Cons following_later[of "(currentNode tw, cs) # above tw"]
      by (simp add: nextNode_step_def remaining_later later_simps visible_eq[of c]
               split: option.splits)
  qed
qed

lemma nextNode_remaining:
  "snd (nextNode tw) = (case remaining tw of [] \<Rightarrow> None | x # xs \<Rightarrow> Some x)"
  "remaining (fst (nextNode tw)) = tl (remaining tw)"
  using nextNode_step_remaining[of tw]
  by (auto simp: nextNode_def move_def split: option.splits list.splits)

lemma firstAccepted_find:
  "map_option currentNode (firstAccepted parent rest up) = find nodeValidator rest"
  by (induction rest) auto

lemma nextSibling_find:
  "above tw = (parent, rest) # up \<Longrightarrow> up = [] \<or> nodeValidator parent \<Longrightarrow>
   snd (nextSibling tw) = find nodeValidator rest"
  using firstAccepted_find[of parent rest up]
  by (auto simp: nextSibling_def move_def split: option.splits)




section \<open>The traversal, handler by handler\<close>

lemma walk_svg:
  "nodeName nd = ''svg'' \<Longrightarrow>
   walk (Suc n) D doc tw groups st (Some nd) =
     walk n D doc (fst (nextNode tw)) groups st (snd (nextNode tw))"
  by simp

lemma walk_line:
  "nodeName nd = ''line'' \<Longrightarrow>
   walk (Suc n) D doc tw groups st (Some nd) =
     walk n D doc (fst (nextNode tw)) groups st (snd (nextNode tw))"
  by simp

lemma walk_g:
  "nodeName nd = ''g'' \<Longrightarrow>
   walk (Suc n) D doc tw groups st (Some nd) =
     (case walk n D doc (fst (nextNode (createTreeWalker (currentNode tw))))
             (groups @ [newGroup D (snd st) (currentNode tw)]) (fst st, Suc (snd st))
             (snd (nextNode (createTreeWalker (currentNode tw)))) of
        Inl thrown \<Rightarrow> Inl thrown
      | Inr st' \<Rightarrow> walk n D doc (fst (nextSibling tw)) groups st' (snd (nextSibling tw)))"
  by (simp add: Let_def)

lemma walk_use:
  "nodeName nd = ''use'' \<Longrightarrow>
   walk (Suc n) D doc tw groups st (Some nd) =
     (case useId (currentNode tw) of
        None \<Rightarrow> Inl (UnableToGetId, fst st)
      | Some ref \<Rightarrow>
          (case querySelector D doc ref of
             Inl e \<Rightarrow> Inl (e, fst st)
           | Inr found \<Rightarrow>
               (case found of
                  None \<Rightarrow> Inl (UnableToFindDef ref, fst st)
                | Some defEl \<Rightarrow>
                    (case walk n D doc (createTreeWalker (getDefElWithCorrectAttrs defEl (currentNode tw)))
                            groups ([], snd st)
                            (Some (getDefElWithCorrectAttrs defEl (currentNode tw))) of
                       Inl thrown \<Rightarrow> Inl (fst thrown, fst st)
                     | Inr temp \<Rightarrow>
                         (if fst temp = [] then Inl (UnableToCreateEx, fst st)
                          else walk n D doc (fst (nextNode tw)) groups
                                 (fst st @ [last (fst temp)], snd temp) (snd (nextNode tw)))))))"
  by (simp add: Let_def split: option.splits sum.splits)

lemma walk_circle:
  "nodeName nd = ''circle'' \<Longrightarrow>
   walk (Suc n) D doc tw groups st (Some nd) =
     walk n D doc (fst (nextNode tw)) groups
       (fst st @ [circle_primitive D (currentNode tw) groups], snd st) (snd (nextNode tw))"
  by simp

lemma walk_ellipse:
  "nodeName nd = ''ellipse'' \<Longrightarrow>
   walk (Suc n) D doc tw groups st (Some nd) =
     walk n D doc (fst (nextNode tw)) groups
       (fst st @ [ellipse_primitive D (currentNode tw) groups], snd st) (snd (nextNode tw))"
  by simp

lemma walk_rect:
  "nodeName nd = ''rect'' \<Longrightarrow>
   walk (Suc n) D doc tw groups st (Some nd) =
     walk n D doc (fst (nextNode tw)) groups
       (fst st @ [rect_primitive D (currentNode tw) groups], snd st) (snd (nextNode tw))"
  by simp

lemma walk_polygon:
  "nodeName nd = ''polygon'' \<Longrightarrow>
   walk (Suc n) D doc tw groups st (Some nd) =
     (case polygon_primitive D (currentNode tw) groups of
        Inl e \<Rightarrow> Inl (e, fst st)
      | Inr line \<Rightarrow>
          walk n D doc (fst (nextNode tw)) groups (fst st @ [line], snd st) (snd (nextNode tw)))"
  by simp

lemma walk_polyline:
  "nodeName nd = ''polyline'' \<Longrightarrow>
   walk (Suc n) D doc tw groups st (Some nd) =
     (case polyline_primitive D (currentNode tw) groups of
        Inl e \<Rightarrow> Inl (e, fst st)
      | Inr line \<Rightarrow>
          walk n D doc (fst (nextNode tw)) groups (fst st @ [line], snd st) (snd (nextNode tw)))"
  by simp

lemma walk_text:
  "nodeName nd = ''text'' \<Longrightarrow>
   walk (Suc n) D doc tw groups st (Some nd) =
     (case text_primitives D doc (currentNode tw) groups of
        Inl e \<Rightarrow> Inl (e, fst st)
      | Inr texts \<Rightarrow>
          walk n D doc (fst (nextNode tw)) groups (fst st @ texts, snd st) (snd (nextNode tw)))"
  by simp

lemma walk_path:
  "nodeName nd = ''path'' \<Longrightarrow>
   walk (Suc n) D doc tw groups st (Some nd) =
     (case path_primitives D (currentNode tw) groups (snd st) of
        Inl e \<Rightarrow> Inl (e, fst st)
      | Inr r \<Rightarrow>
          walk n D doc (fst (nextNode tw)) groups (fst st @ fst r, snd r) (snd (nextNode tw)))"
  by simp

lemma walk_uncallable:
  "nodeName nd \<in> set uncallable \<Longrightarrow>
   walk (Suc n) D doc tw groups st (Some nd) = Inl (TypeError, fst st)"
  by (auto simp: uncallable_def)

lemma walk_other:
  "nodeName nd \<notin> set walkers \<Longrightarrow> nodeName nd \<notin> set uncallable \<Longrightarrow>
   walk (Suc n) D doc tw groups st (Some nd) = Inr st"
  by (simp add: walkers_def)

lemma walk_advancing:
  "nodeName nd \<in> set advancing \<Longrightarrow>
   walk (Suc n) D doc tw groups st (Some nd) =
     (case pushed D doc (nodeName nd) (currentNode tw) groups (snd st) of
        Inl e \<Rightarrow> Inl (e, fst st)
      | Inr r \<Rightarrow>
          walk n D doc (fst (nextNode tw)) groups (fst st @ fst r, snd r) (snd (nextNode tw)))"
  by (auto simp: advancing_def pushed_def split: sum.splits)

lemma origins_g:
  "nodeName nd = ''g'' \<Longrightarrow>
   origins (Suc n) D doc tw groups st (Some nd) =
     origins n D doc (fst (nextNode (createTreeWalker (currentNode tw))))
       (groups @ [newGroup D (snd st) (currentNode tw)]) (fst st, Suc (snd st))
       (snd (nextNode (createTreeWalker (currentNode tw)))) @
     (case walk n D doc (fst (nextNode (createTreeWalker (currentNode tw))))
             (groups @ [newGroup D (snd st) (currentNode tw)]) (fst st, Suc (snd st))
             (snd (nextNode (createTreeWalker (currentNode tw)))) of
        Inl thrown \<Rightarrow> []
      | Inr st' \<Rightarrow> origins n D doc (fst (nextSibling tw)) groups st' (snd (nextSibling tw)))"
  by (simp add: Let_def)

lemma origins_use:
  "nodeName nd = ''use'' \<Longrightarrow>
   origins (Suc n) D doc tw groups st (Some nd) =
     (case useId (currentNode tw) of
        None \<Rightarrow> []
      | Some ref \<Rightarrow>
          (case querySelector D doc ref of
             Inl e \<Rightarrow> []
           | Inr found \<Rightarrow>
               (case found of
                  None \<Rightarrow> []
                | Some defEl \<Rightarrow>
                    (case walk n D doc (createTreeWalker (getDefElWithCorrectAttrs defEl (currentNode tw)))
                            groups ([], snd st)
                            (Some (getDefElWithCorrectAttrs defEl (currentNode tw))) of
                       Inl thrown \<Rightarrow> []
                     | Inr temp \<Rightarrow>
                         (if fst temp = [] then []
                          else last (origins n D doc
                                       (createTreeWalker (getDefElWithCorrectAttrs defEl (currentNode tw)))
                                       groups ([], snd st)
                                       (Some (getDefElWithCorrectAttrs defEl (currentNode tw)))) #
                               origins n D doc (fst (nextNode tw)) groups
                                 (fst st @ [last (fst temp)], snd temp) (snd (nextNode tw)))))))"
  by (simp add: Let_def split: option.splits sum.splits)

lemma origins_advancing:
  "nodeName nd \<in> set advancing \<Longrightarrow>
   origins (Suc n) D doc tw groups st (Some nd) =
     (case pushed D doc (nodeName nd) (currentNode tw) groups (snd st) of
        Inl e \<Rightarrow> []
      | Inr r \<Rightarrow>
          replicate (length (fst r)) (nodeName nd, currentNode tw, groups) @
          origins n D doc (fst (nextNode tw)) groups (fst st @ fst r, snd r) (snd (nextNode tw)))"
  by (auto simp: advancing_def Let_def)

lemma origins_other:
  "nodeName nd \<notin> set walkers \<Longrightarrow> origins (Suc n) D doc tw groups st (Some nd) = []"
  by (simp add: walkers_def advancing_def)

lemma name_cases:
  obtains (g) "nodeName nd = ''g''" | (use) "nodeName nd = ''use''"
    | (advancing) "nodeName nd \<in> set advancing"
    | (uncallable) "nodeName nd \<notin> set walkers" "nodeName nd \<in> set uncallable"
    | (other) "nodeName nd \<notin> set walkers" "nodeName nd \<notin> set uncallable"
  unfolding walkers_def advancing_def by auto

lemma walk_zero: "walk 0 D doc tw groups st nx = Inl (RangeError, fst st)"
  by simp

lemma walk_null: "walk (Suc n) D doc tw groups st None = Inr st"
  by simp

lemma origins_zero: "origins 0 D doc tw groups st nx = []"
  by simp

lemma origins_null: "origins (Suc n) D doc tw groups st None = []"
  by simp

declare walk.simps [simp del]

declare origins.simps [simp del]

section \<open>What the emitting handlers push\<close>

lemma nonzero_map_count:
  assumes "nonzero_map D el groups mat fc idx iwo lg k subs = Inr r"
  shows "k \<le> snd r"
proof (cases "\<forall>s \<in> set subs. transformPoints D s mat \<noteq> []")
  case True
  show ?thesis
  proof (cases "idx = 0")
    case z: True
    with assms True show ?thesis by (simp add: nonzero_map_first split: if_splits) auto
  next
    case False
    with assms True show ?thesis by (simp add: nonzero_map_later) auto
  qed
next
  case False
  then obtain s where "s \<in> set subs" "transformPoints D s mat = []" by blast
  with assms show ?thesis by (simp add: nonzero_map_fails)
qed

lemma evenodd_map_count:
  assumes "evenodd_map D el groups mat idx lg k subs = Inr r"
  shows "k \<le> snd r"
proof (cases "\<forall>s \<in> set subs. transformPoints D s mat \<noteq> []")
  case True
  show ?thesis
  proof (cases "idx = 0")
    case z: True
    with assms True show ?thesis by (simp add: evenodd_map_first split: if_splits) auto
  next
    case False
    with assms True show ?thesis by (simp add: evenodd_map_later) auto
  qed
next
  case False
  then obtain s where "s \<in> set subs" "transformPoints D s mat = []" by blast
  with assms show ?thesis by (simp add: evenodd_map_fails)
qed

lemma path_primitives_count:
  "path_primitives D el groups k = Inr r \<Longrightarrow> k \<le> snd r"
proof -
  assume a: "path_primitives D el groups k = Inr r"
  consider (nz) "get D el ''fill-rule'' (Some ''nonzero'') = ''nonzero''"
    | (eo) "get D el ''fill-rule'' (Some ''nonzero'') \<noteq> ''nonzero''" "get D el ''fill-rule'' (Some ''nonzero'') = ''evenodd''"
    | (other) "get D el ''fill-rule'' (Some ''nonzero'') \<noteq> ''nonzero''" "get D el ''fill-rule'' (Some ''nonzero'') \<noteq> ''evenodd''"
    by blast
  then show ?thesis
  proof cases
    case nz
    with a have "Suc k \<le> snd r" by (simp add: path_primitives_def Let_def nonzero_map_count)
    then show ?thesis by simp
  next
    case eo
    with a have "Suc k \<le> snd r" by (simp add: path_primitives_def Let_def evenodd_map_count)
    then show ?thesis by simp
  next
    case other
    with a show ?thesis by (auto simp: path_primitives_def Let_def)
  qed
qed

lemma polygon_error: "polygon_primitive D el gs = Inl e \<Longrightarrow> e = TypeError"
  by (auto simp: polygon_primitive_def Let_def split: list.splits)

lemma polyline_error: "polyline_primitive D el gs = Inl e \<Longrightarrow> e = TypeError"
  by (auto simp: polyline_primitive_def Let_def split: list.splits)

lemma text_error: "text_primitives D doc el gs = Inl e \<Longrightarrow> e = TypeError"
  by (auto simp: text_primitives_def Let_def split: option.splits)

lemma nonzero_map_error:
  assumes "nonzero_map D el groups mat fc idx iwo lg k subs = Inl e"
  shows "e = TypeError"
proof (cases "\<forall>s \<in> set subs. transformPoints D s mat \<noteq> []")
  case True
  with assms show ?thesis
    by (cases "idx = 0") (simp_all add: nonzero_map_first nonzero_map_later)
next
  case False
  then obtain s where "s \<in> set subs" "transformPoints D s mat = []" by blast
  with assms show ?thesis by (simp add: nonzero_map_fails)
qed

lemma evenodd_map_error:
  assumes "evenodd_map D el groups mat idx lg k subs = Inl e"
  shows "e = TypeError"
proof (cases "\<forall>s \<in> set subs. transformPoints D s mat \<noteq> []")
  case True
  with assms show ?thesis
    by (cases "idx = 0") (simp_all add: evenodd_map_first evenodd_map_later)
next
  case False
  then obtain s where "s \<in> set subs" "transformPoints D s mat = []" by blast
  with assms show ?thesis by (simp add: evenodd_map_fails)
qed

lemma path_error: "path_primitives D el gs k = Inl e \<Longrightarrow> e = TypeError"
  by (auto simp: path_primitives_def Let_def split: if_splits
           dest: nonzero_map_error evenodd_map_error)

lemma pushed_draws: "pushed D doc name el groups k = Inr r \<Longrightarrow> k \<le> snd r"
  by (auto simp: pushed_def split: if_splits sum.splits dest: path_primitives_count)

lemma pushed_error: "pushed D doc name el groups k = Inl e \<Longrightarrow> e = TypeError"
  by (auto simp: pushed_def split: if_splits sum.splits
           dest: polygon_error polyline_error text_error path_error)

lemma path_nonzero_ids:
  assumes "path_primitives D el groups k = Inr r"
      and "get D el ''fill-rule'' (Some ''nonzero'') = ''nonzero''"
      and "e \<in> set (fst r)"
  shows "e ''groupIds'' = Some (Ids [randomId D (Suc k)])"
proof (cases "\<forall>s \<in> set (pointsOnPath D (get D el ''d'' None)).
                 transformPoints D s (getTransformMatrix D el groups) \<noteq> []")
  case True
  from assms(1,3) path_nonzero[OF assms(2) True, of k] show ?thesis
    by (auto simp: nonzero_at_fields)
next
  case False
  then obtain s where "s \<in> set (pointsOnPath D (get D el ''d'' None))"
    "transformPoints D s (getTransformMatrix D el groups) = []" by blast
  with assms(1,2) show ?thesis
    by (simp add: path_primitives_def Let_def nonzero_map_fails)
qed

section \<open>Where the elements of a scene come from\<close>

lemma placedI:
  assumes "gs = groups @ ext" and "\<And>g. g \<in> set ext \<Longrightarrow> \<exists>j\<ge>k. group_id g = randomId D j"
      and "name = ''circle'' \<or> name = ''ellipse'' \<Longrightarrow> e ''groupIds'' = Some (Ids (map group_id gs))"
      and "name = ''path'' \<Longrightarrow> get D el ''fill-rule'' (Some ''nonzero'') = ''nonzero'' \<Longrightarrow>
             \<exists>j>k. e ''groupIds'' = Some (Ids [randomId D j])"
  shows "placed D groups k e (name, el, gs)"
  unfolding placed_def using assms by blast

lemma placedE:
  assumes "placed D groups k e (name, el, gs)"
  obtains ext where "gs = groups @ ext" "\<And>g. g \<in> set ext \<Longrightarrow> \<exists>j\<ge>k. group_id g = randomId D j"
      "name = ''circle'' \<or> name = ''ellipse'' \<Longrightarrow> e ''groupIds'' = Some (Ids (map group_id gs))"
      "name = ''path'' \<Longrightarrow> get D el ''fill-rule'' (Some ''nonzero'') = ''nonzero'' \<Longrightarrow>
             \<exists>j>k. e ''groupIds'' = Some (Ids [randomId D j])"
  using assms unfolding placed_def by auto

lemma placed_earlier:
  assumes "placed D groups k e og" and "k' \<le> k"
  shows "placed D groups k' e og"
proof -
  obtain name el gs where og: "og = (name, el, gs)" by (cases og)
  from assms(1)[unfolded og] show ?thesis unfolding og
  proof (rule placedE)
    fix ext
    assume m: "gs = groups @ ext" "\<And>g. g \<in> set ext \<Longrightarrow> \<exists>j\<ge>k. group_id g = randomId D j"
      "name = ''circle'' \<or> name = ''ellipse'' \<Longrightarrow> e ''groupIds'' = Some (Ids (map group_id gs))"
      "name = ''path'' \<Longrightarrow> get D el ''fill-rule'' (Some ''nonzero'') = ''nonzero'' \<Longrightarrow>
             \<exists>j>k. e ''groupIds'' = Some (Ids [randomId D j])"
    show "placed D groups k' e (name, el, gs)"
    proof (rule placedI[OF m(1)])
      fix g assume "g \<in> set ext"
      from m(2)[OF this] obtain j where "k \<le> j" "group_id g = randomId D j" by blast
      with assms(2) show "\<exists>j\<ge>k'. group_id g = randomId D j" by (intro exI[of _ j]) simp
    next
      assume "name = ''circle'' \<or> name = ''ellipse''"
      then show "e ''groupIds'' = Some (Ids (map group_id gs))" by (rule m(3))
    next
      assume "name = ''path''" "get D el ''fill-rule'' (Some ''nonzero'') = ''nonzero''"
      from m(4)[OF this] obtain j where "k < j" "e ''groupIds'' = Some (Ids [randomId D j])" by blast
      with assms(2) show "\<exists>j>k'. e ''groupIds'' = Some (Ids [randomId D j])"
        by (intro exI[of _ j]) simp
    qed
  qed
qed

lemma placed_group:
  assumes "placed D (groups @ [newGroup D k el0]) (Suc k) e og"
  shows "placed D groups k e og"
proof -
  obtain name el gs where og: "og = (name, el, gs)" by (cases og)
  from assms[unfolded og] show ?thesis unfolding og
  proof (rule placedE)
    fix ext
    assume m: "gs = (groups @ [newGroup D k el0]) @ ext"
      "\<And>g. g \<in> set ext \<Longrightarrow> \<exists>j\<ge>Suc k. group_id g = randomId D j"
      "name = ''circle'' \<or> name = ''ellipse'' \<Longrightarrow> e ''groupIds'' = Some (Ids (map group_id gs))"
      "name = ''path'' \<Longrightarrow> get D el ''fill-rule'' (Some ''nonzero'') = ''nonzero'' \<Longrightarrow>
             \<exists>j>Suc k. e ''groupIds'' = Some (Ids [randomId D j])"
    have gs: "gs = groups @ (newGroup D k el0 # ext)" using m(1) by simp
    show "placed D groups k e (name, el, gs)"
    proof (rule placedI[OF gs])
      fix g assume "g \<in> set (newGroup D k el0 # ext)"
      then consider "g = newGroup D k el0" | "g \<in> set ext" by auto
      then show "\<exists>j\<ge>k. group_id g = randomId D j"
      proof cases
        case 1
        then show ?thesis by (intro exI[of _ k]) (simp add: newGroup_def)
      next
        case 2
        from m(2)[OF this] obtain j where "Suc k \<le> j" "group_id g = randomId D j" by blast
        then show ?thesis by (intro exI[of _ j]) simp
      qed
    next
      assume "name = ''circle'' \<or> name = ''ellipse''"
      then show "e ''groupIds'' = Some (Ids (map group_id gs))" by (rule m(3))
    next
      assume "name = ''path''" "get D el ''fill-rule'' (Some ''nonzero'') = ''nonzero''"
      from m(4)[OF this] obtain j where "Suc k < j" "e ''groupIds'' = Some (Ids [randomId D j])" by blast
      then show "\<exists>j>k. e ''groupIds'' = Some (Ids [randomId D j])"
        by (intro exI[of _ j]) simp
    qed
  qed
qed

lemma pushed_placed:
  assumes "pushed D doc name el groups k = Inr r" and "e \<in> set (fst r)"
  shows "placed D groups k e (name, el, groups)"
proof (rule placedI[where ext = "[]"])
  show "groups = groups @ []" by simp
next
  fix g :: group assume "g \<in> set []"
  then show "\<exists>j\<ge>k. group_id g = randomId D j" by simp
next
  assume "name = ''circle'' \<or> name = ''ellipse''"
  with assms show "e ''groupIds'' = Some (Ids (map group_id groups))"
    by (auto simp: pushed_def circle_primitive_def ellipse_primitive_def Let_def)
next
  assume "name = ''path''" "get D el ''fill-rule'' (Some ''nonzero'') = ''nonzero''"
  with assms have "e ''groupIds'' = Some (Ids [randomId D (Suc k)])"
    by (auto simp: pushed_def dest: path_nonzero_ids)
  then show "\<exists>j>k. e ''groupIds'' = Some (Ids [randomId D j])"
    by (intro exI[of _ "Suc k"]) simp
qed

lemma walk_draws:
  "walk n D doc tw groups st nx = Inr st' \<Longrightarrow> snd st \<le> snd st'"
proof (induction n arbitrary: tw groups st nx st')
  case 0
  then show ?case by (simp add: walk_zero)
next
  case (Suc n)
  show ?case
  proof (cases nx)
    case None
    with Suc.prems show ?thesis by (simp add: walk_null)
  next
    case (Some nd)
    note w = Suc.prems[unfolded Some]
    show ?thesis
    proof (cases nd rule: name_cases)
      case g
      with w obtain st1 where
        a: "walk n D doc (fst (nextNode (createTreeWalker (currentNode tw))))
             (groups @ [newGroup D (snd st) (currentNode tw)]) (fst st, Suc (snd st))
             (snd (nextNode (createTreeWalker (currentNode tw)))) = Inr st1"
        and b: "walk n D doc (fst (nextSibling tw)) groups st1 (snd (nextSibling tw)) = Inr st'"
        by (simp only: walk_g split: sum.splits) auto
      from Suc.IH[OF a] Suc.IH[OF b] show ?thesis by simp
    next
      case use
      with w obtain ref defEl temp where
        a: "walk n D doc (createTreeWalker (getDefElWithCorrectAttrs defEl (currentNode tw)))
              groups ([], snd st) (Some (getDefElWithCorrectAttrs defEl (currentNode tw))) = Inr temp"
        and b: "walk n D doc (fst (nextNode tw)) groups
                  (fst st @ [last (fst temp)], snd temp) (snd (nextNode tw)) = Inr st'"
        by (simp only: walk_use split: option.splits sum.splits if_splits) auto
      from Suc.IH[OF a] Suc.IH[OF b] show ?thesis by simp
    next
      case advancing
      with w obtain r where
        a: "pushed D doc (nodeName nd) (currentNode tw) groups (snd st) = Inr r"
        and b: "walk n D doc (fst (nextNode tw)) groups (fst st @ fst r, snd r) (snd (nextNode tw)) = Inr st'"
        by (simp only: walk_advancing split: sum.splits) auto
      from pushed_draws[OF a] Suc.IH[OF b] show ?thesis by simp
    next
      case uncallable
      with w show ?thesis by (simp add: walk_uncallable)
    next
      case other
      with w show ?thesis by (simp add: walk_other)
    qed
  qed
qed

lemma list_all2_last:
  "list_all2 P xs ys \<Longrightarrow> xs \<noteq> [] \<Longrightarrow> P (last xs) (last ys)"
  by (induction xs ys rule: list_all2_induct) (auto simp: list_all2_Nil2)

lemma list_all2_replicate:
  "(\<And>e. e \<in> set es \<Longrightarrow> P e x) \<Longrightarrow> list_all2 P es (replicate (length es) x)"
  by (induction es) simp_all

lemma placed_all_earlier:
  "list_all2 (placed D groups k) new os \<Longrightarrow> k' \<le> k \<Longrightarrow> list_all2 (placed D groups k') new os"
  by (erule list_all2_mono) (rule placed_earlier)

lemma placed_all_group:
  "list_all2 (placed D (groups @ [newGroup D k el0]) (Suc k)) new os \<Longrightarrow>
   list_all2 (placed D groups k) new os"
  by (erule list_all2_mono) (rule placed_group)

lemma walk_origins:
  "\<exists>new. scene_of (walk n D doc tw groups st nx) = fst st @ new
       \<and> list_all2 (placed D groups (snd st)) new (origins n D doc tw groups st nx)"
proof (induction n arbitrary: tw groups st nx)
  case 0
  show ?case by (simp add: walk_zero origins_zero scene_of_def)
next
  case (Suc n)
  show ?case
  proof (cases nx)
    case None
    then show ?thesis by (simp add: walk_null origins_null scene_of_def)
  next
    case (Some nd)
    have "\<exists>new. scene_of (walk (Suc n) D doc tw groups st (Some nd)) = fst st @ new
       \<and> list_all2 (placed D groups (snd st)) new (origins (Suc n) D doc tw groups st (Some nd))"
    proof (cases nd rule: name_cases)
      case g
      let ?G = "newGroup D (snd st) (currentNode tw)"
      let ?in = "createTreeWalker (currentNode tw)"
      let ?r1 = "walk n D doc (fst (nextNode ?in)) (groups @ [?G]) (fst st, Suc (snd st))
                   (snd (nextNode ?in))"
      let ?o1 = "origins n D doc (fst (nextNode ?in)) (groups @ [?G]) (fst st, Suc (snd st))
                   (snd (nextNode ?in))"
      from Suc.IH[of "fst (nextNode ?in)" "groups @ [?G]" "(fst st, Suc (snd st))" "snd (nextNode ?in)"]
      obtain new1 where n1: "scene_of ?r1 = fst st @ new1"
        "list_all2 (placed D (groups @ [?G]) (Suc (snd st))) new1 ?o1" by auto
      from n1(2) have p1: "list_all2 (placed D groups (snd st)) new1 ?o1"
        by (rule placed_all_group)
      show ?thesis
      proof (cases ?r1)
        case (Inl thrown)
        with g n1(1) p1 show ?thesis
          by (intro exI[of _ new1]) (simp add: walk_g origins_g scene_of_def)
      next
        case (Inr st1)
        let ?o2 = "origins n D doc (fst (nextSibling tw)) groups st1 (snd (nextSibling tw))"
        from Suc.IH[of "fst (nextSibling tw)" groups st1 "snd (nextSibling tw)"]
        obtain new2 where n2:
          "scene_of (walk n D doc (fst (nextSibling tw)) groups st1 (snd (nextSibling tw))) = fst st1 @ new2"
          "list_all2 (placed D groups (snd st1)) new2 ?o2" by auto
        from walk_draws[OF Inr] have "snd st \<le> snd st1" by simp
        with n2(2) have p2: "list_all2 (placed D groups (snd st)) new2 ?o2"
          by (rule placed_all_earlier)
        from n1(1) Inr have s1: "fst st1 = fst st @ new1" by (simp add: scene_of_def)
        from p1 p2 have "list_all2 (placed D groups (snd st)) (new1 @ new2) (?o1 @ ?o2)"
          by (rule list_all2_appendI)
        with g Inr n2(1) s1 show ?thesis
          by (intro exI[of _ "new1 @ new2"]) (simp add: walk_g origins_g)
      qed
    next
      case use
      have none: ?thesis
        if "scene_of (walk (Suc n) D doc tw groups st (Some nd)) = fst st"
          and "origins (Suc n) D doc tw groups st (Some nd) = []"
        using that by (intro exI[of _ "[]"]) simp
      show ?thesis
      proof (cases "useId (currentNode tw)")
        case None
        with use show ?thesis by (intro none) (simp_all add: walk_use origins_use scene_of_def)
      next
        case (Some ref)
        note ref = Some
        show ?thesis
        proof (cases "querySelector D doc ref")
          case (Inl e)
          with use ref show ?thesis
            by (intro none) (simp_all add: walk_use origins_use scene_of_def)
        next
          case (Inr found)
          note q = Inr
          show ?thesis
          proof (cases found)
            case None
            with use ref q show ?thesis
              by (intro none) (simp_all add: walk_use origins_use scene_of_def)
          next
            case (Some defEl)
            let ?F = "getDefElWithCorrectAttrs defEl (currentNode tw)"
            let ?rt = "walk n D doc (createTreeWalker ?F) groups ([], snd st) (Some ?F)"
            let ?ot = "origins n D doc (createTreeWalker ?F) groups ([], snd st) (Some ?F)"
            show ?thesis
            proof (cases ?rt)
              case (Inl thrown)
              with use ref q Some show ?thesis
                by (intro none) (simp_all add: walk_use origins_use scene_of_def)
            next
              case (Inr temp)
              show ?thesis
              proof (cases "fst temp = []")
                case True
                with use ref q Some Inr show ?thesis
                  by (intro none) (simp_all add: walk_use origins_use scene_of_def)
              next
                case False
                from Suc.IH[of "createTreeWalker ?F" groups "([], snd st)" "Some ?F"] Inr
                have pt: "list_all2 (placed D groups (snd st)) (fst temp) ?ot"
                  by (simp add: scene_of_def)
                from list_all2_last[OF pt False]
                have pl: "placed D groups (snd st) (last (fst temp)) (last ?ot)" .
                let ?st2 = "(fst st @ [last (fst temp)], snd temp)"
                let ?o2 = "origins n D doc (fst (nextNode tw)) groups ?st2 (snd (nextNode tw))"
                from Suc.IH[of "fst (nextNode tw)" groups ?st2 "snd (nextNode tw)"]
                obtain new2 where n2:
                  "scene_of (walk n D doc (fst (nextNode tw)) groups ?st2 (snd (nextNode tw)))
                     = (fst st @ [last (fst temp)]) @ new2"
                  "list_all2 (placed D groups (snd temp)) new2 ?o2" by auto
                from walk_draws[OF Inr] have "snd st \<le> snd temp" by simp
                with n2(2) have p2: "list_all2 (placed D groups (snd st)) new2 ?o2"
                  by (rule placed_all_earlier)
                from pl p2 have "list_all2 (placed D groups (snd st)) (last (fst temp) # new2)
                    (last ?ot # ?o2)" by simp
                with use ref q Some Inr False n2(1) show ?thesis
                  by (intro exI[of _ "last (fst temp) # new2"]) (simp add: walk_use origins_use)
              qed
            qed
          qed
        qed
      qed
    next
      case advancing
      show ?thesis
      proof (cases "pushed D doc (nodeName nd) (currentNode tw) groups (snd st)")
        case (Inl e)
        with advancing show ?thesis
          by (intro exI[of _ "[]"]) (simp add: walk_advancing origins_advancing scene_of_def)
      next
        case (Inr r)
        let ?st2 = "(fst st @ fst r, snd r)"
        let ?own = "(nodeName nd, currentNode tw, groups)"
        let ?o2 = "origins n D doc (fst (nextNode tw)) groups ?st2 (snd (nextNode tw))"
        from Suc.IH[of "fst (nextNode tw)" groups ?st2 "snd (nextNode tw)"]
        obtain new2 where n2:
          "scene_of (walk n D doc (fst (nextNode tw)) groups ?st2 (snd (nextNode tw)))
             = (fst st @ fst r) @ new2"
          "list_all2 (placed D groups (snd r)) new2 ?o2" by auto
        from n2(2) pushed_draws[OF Inr] have p2: "list_all2 (placed D groups (snd st)) new2 ?o2"
          by (rule placed_all_earlier)
        have p1: "list_all2 (placed D groups (snd st)) (fst r) (replicate (length (fst r)) ?own)"
          by (rule list_all2_replicate) (rule pushed_placed[OF Inr])
        from p1 p2 have "list_all2 (placed D groups (snd st)) (fst r @ new2)
            (replicate (length (fst r)) ?own @ ?o2)"
          by (rule list_all2_appendI)
        with advancing Inr n2(1) show ?thesis
          by (intro exI[of _ "fst r @ new2"]) (simp add: walk_advancing origins_advancing)
      qed
    next
      case uncallable
      then show ?thesis
        by (intro exI[of _ "[]"]) (simp add: walk_uncallable origins_other scene_of_def)
    next
      case other
      then show ?thesis
        by (intro exI[of _ "[]"]) (simp add: walk_other origins_other scene_of_def)
    qed
    with Some show ?thesis by simp
  qed
qed

lemma walk_prefix: "\<exists>new. scene_of (walk n D doc tw groups st nx) = fst st @ new"
  using walk_origins[of n D doc tw groups st nx] by blast

section \<open>The depth bound, and documents without references\<close>

text \<open>
  An outcome other than the overflow of the call stack does not depend on the bound: with a
  larger bound the traversal ends the same way. On a walker none of whose visible nodes is
  a \<^verbatim>\<open>use\<close> element, a bound above the number of visible nodes plus one is enough for the
  traversal to end without overflow (with a scene, or with the \<^verbatim>\<open>TypeError\<close> of a handler).
\<close>

lemma walk_more_fuel:
  "walk n D doc tw groups st nx = r \<Longrightarrow> (\<And>sc. r \<noteq> Inl (RangeError, sc)) \<Longrightarrow>
   walk (Suc n) D doc tw groups st nx = r"
proof (induction n arbitrary: tw groups st nx r)
  case 0
  from 0(1) 0(2)[of "fst st"] show ?case by (simp add: walk_zero)
next
  case (Suc n)
  show ?case
  proof (cases nx)
    case None
    with Suc.prems(1) show ?thesis by (simp add: walk_null)
  next
    case (Some nd)
    note w = Suc.prems(1)[unfolded Some]
    note ok = Suc.prems(2)
    have cont: "walk (Suc n) D doc tw1 groups st1 nx1 = r"
      if "walk n D doc tw1 groups st1 nx1 = r" for tw1 st1 nx1
      using Suc.IH[OF that ok] .
    have keep: "walk (Suc n) D doc tw1 gs1 st1 nx1 = Inr st2"
      if "walk n D doc tw1 gs1 st1 nx1 = Inr st2" for tw1 gs1 st1 nx1 st2
      using Suc.IH[OF that] by simp
    have "walk (Suc (Suc n)) D doc tw groups st (Some nd) = r"
    proof (cases nd rule: name_cases)
      case g
      let ?in = "createTreeWalker (currentNode tw)"
      let ?r1 = "walk n D doc (fst (nextNode ?in)) (groups @ [newGroup D (snd st) (currentNode tw)])
                   (fst st, Suc (snd st)) (snd (nextNode ?in))"
      show ?thesis
      proof (cases ?r1)
        case (Inl thrown)
        with w g have r: "r = Inl thrown" by (simp add: walk_g)
        with ok have "\<And>sc. Inl thrown \<noteq> (Inl (RangeError, sc) :: outcome)" by simp
        from Suc.IH[OF Inl this] g r show ?thesis by (simp add: walk_g)
      next
        case (Inr st1)
        from w g Inr have "walk n D doc (fst (nextSibling tw)) groups st1 (snd (nextSibling tw)) = r"
          by (simp add: walk_g)
        from cont[OF this] keep[OF Inr] g show ?thesis by (simp add: walk_g)
      qed
    next
      case use
      show ?thesis
      proof (cases "useId (currentNode tw)")
        case None
        with w use show ?thesis by (simp add: walk_use)
      next
        case (Some ref)
        note ref = Some
        show ?thesis
        proof (cases "querySelector D doc ref")
          case (Inl e)
          with w use ref show ?thesis by (simp add: walk_use)
        next
          case (Inr found)
          note q = Inr
          show ?thesis
          proof (cases found)
            case None
            with w use ref q show ?thesis by (simp add: walk_use)
          next
            case (Some defEl)
            let ?F = "getDefElWithCorrectAttrs defEl (currentNode tw)"
            show ?thesis
            proof (cases "walk n D doc (createTreeWalker ?F) groups ([], snd st) (Some ?F)")
              case (Inl thrown)
              with w use ref q Some have r: "r = Inl (fst thrown, fst st)" by (simp add: walk_use)
              with ok[of "fst st"] have "fst thrown \<noteq> RangeError" by simp
              then have "\<And>sc. Inl thrown \<noteq> (Inl (RangeError, sc) :: outcome)" by auto
              from Suc.IH[OF Inl this] use ref q Some r show ?thesis by (simp add: walk_use)
            next
              case (Inr temp)
              note a = keep[OF Inr]
              show ?thesis
              proof (cases "fst temp = []")
                case True
                with w use ref q Some Inr a show ?thesis by (simp add: walk_use)
              next
                case False
                with w use ref q Some Inr
                have "walk n D doc (fst (nextNode tw)) groups
                        (fst st @ [last (fst temp)], snd temp) (snd (nextNode tw)) = r"
                  by (simp add: walk_use)
                from cont[OF this] False use ref q Some a show ?thesis by (simp add: walk_use)
              qed
            qed
          qed
        qed
      qed
    next
      case advancing
      show ?thesis
      proof (cases "pushed D doc (nodeName nd) (currentNode tw) groups (snd st)")
        case (Inl e)
        with w advancing show ?thesis by (simp add: walk_advancing)
      next
        case (Inr p)
        with w advancing
        have "walk n D doc (fst (nextNode tw)) groups (fst st @ fst p, snd p) (snd (nextNode tw)) = r"
          by (simp add: walk_advancing)
        from cont[OF this] advancing Inr show ?thesis by (simp add: walk_advancing)
      qed
    next
      case uncallable
      with w show ?thesis by (simp add: walk_uncallable)
    next
      case other
      with w show ?thesis by (simp add: walk_other)
    qed
    with Some show ?thesis by simp
  qed
qed

lemma walk_any_more_fuel:
  "walk n D doc tw groups st nx = Inr st' \<Longrightarrow> walk (n + m) D doc tw groups st nx = Inr st'"
  by (induction m) (simp_all add: walk_more_fuel)

lemma firstAccepted_later:
  "firstAccepted parent rest up = Some tw' \<Longrightarrow>
   \<exists>pre. concat (map visible rest) @ later up = pre @ currentNode tw' # remaining tw'"
proof (induction rest)
  case Nil
  then show ?case by simp
next
  case (Cons s rest)
  show ?case
  proof (cases "nodeValidator s")
    case True
    with Cons.prems have "tw' = \<lparr>currentNode = s, above = (parent, rest) # up\<rparr>" by simp
    then show ?thesis using True
      by (intro exI[of _ "[]"]) (simp add: remaining_def later_simps visible_eq[of s])
  next
    case False
    with Cons show ?thesis by (simp add: visible_eq[of s])
  qed
qed

lemma siblings_later:
  "siblings up = Some tw' \<Longrightarrow> \<exists>pre. later up = pre @ currentNode tw' # remaining tw'"
proof (induction up rule: siblings.induct)
  case 1
  then show ?case by simp
next
  case (2 parent rest up)
  show ?case
  proof (cases "firstAccepted parent rest up")
    case (Some tw1)
    with "2.prems" have "tw1 = tw'" by simp
    with Some firstAccepted_later[of parent rest up tw'] show ?thesis
      by (simp add: later_simps)
  next
    case None
    with "2.prems" have climb: "\<not> (up = [] \<or> nodeValidator parent)" "siblings up = Some tw'"
      by (auto split: if_splits)
    from "2.IH"[OF None climb] obtain pre where "later up = pre @ currentNode tw' # remaining tw'"
      by blast
    then show ?thesis
      by (intro exI[of _ "concat (map visible rest) @ pre"]) (simp add: later_simps)
  qed
qed

lemma nextSibling_remaining:
  assumes "snd (nextSibling tw) = Some s"
  shows "\<exists>pre. remaining tw = pre @ s # remaining (fst (nextSibling tw))"
proof -
  from assms obtain tw' where s: "siblings (above tw) = Some tw'" "s = currentNode tw'"
    "fst (nextSibling tw) = tw'"
    by (auto simp: nextSibling_def move_def split: option.splits)
  from siblings_later[OF s(1)] obtain pre where "later (above tw) = pre @ currentNode tw' # remaining tw'"
    by blast
  then show ?thesis using s
    by (intro exI[of _ "concat (map visible (childNodes (currentNode tw))) @ pre"])
       (simp add: remaining_def)
qed

lemma nextNode_Some:
  assumes "snd (nextNode tw) = Some x"
  shows "remaining tw = x # remaining (fst (nextNode tw))"
  using assms nextNode_remaining[of tw] by (cases "remaining tw") simp_all

lemma inner_remaining:
  "\<exists>post. remaining tw = remaining (createTreeWalker (currentNode tw)) @ post"
  by (simp add: remaining_def createTreeWalker_def later_simps)

lemma nextNode_all:
  assumes "\<forall>x \<in> set (remaining tw). P x"
  shows "\<forall>x \<in> set (remaining (fst (nextNode tw))). P x"
    and "snd (nextNode tw) = Some nd \<Longrightarrow> P nd"
  using assms nextNode_remaining[of tw]
  by (cases "remaining tw"; simp)+

lemma nextSibling_all:
  assumes "\<forall>x \<in> set (remaining tw). P x"
  shows "\<forall>x \<in> set (remaining (fst (nextSibling tw))). P x"
    and "snd (nextSibling tw) = Some nd \<Longrightarrow> P nd"
proof -
  show "\<forall>x \<in> set (remaining (fst (nextSibling tw))). P x"
  proof (cases "snd (nextSibling tw)")
    case None
    then have "fst (nextSibling tw) = tw"
      by (auto simp: nextSibling_def move_def split: option.splits)
    with assms show ?thesis by simp
  next
    case (Some s)
    from nextSibling_remaining[OF Some] assms show ?thesis by auto
  qed
  show "P nd" if "snd (nextSibling tw) = Some nd"
    using nextSibling_remaining[OF that] assms by auto
qed

lemma inner_all:
  assumes "\<forall>x \<in> set (remaining tw). P x"
  shows "\<forall>x \<in> set (remaining (createTreeWalker (currentNode tw))). P x"
  using assms inner_remaining[of tw] by auto

lemma nextNode_length:
  "snd (nextNode tw) = Some x \<Longrightarrow> Suc (length (remaining (fst (nextNode tw)))) = length (remaining tw)"
  using nextNode_Some[of tw x] by simp

lemma nextNode_length_le:
  "length (remaining (fst (nextNode tw))) \<le> length (remaining tw)"
  using nextNode_remaining(2)[of tw] by simp

lemma nextSibling_length:
  "snd (nextSibling tw) = Some s \<Longrightarrow>
   length (remaining (fst (nextSibling tw))) < length (remaining tw)"
  using nextSibling_remaining[of tw s] by auto

lemma inner_length:
  "length (remaining (createTreeWalker (currentNode tw))) \<le> length (remaining tw)"
  using inner_remaining[of tw] by auto

lemma walk_returns:
  "(case nx of None \<Rightarrow> 0 < n | Some nd \<Rightarrow> length (remaining tw) + 1 < n \<and> nodeName nd \<noteq> ''use'') \<Longrightarrow>
   \<forall>x \<in> set (remaining tw). nodeName x \<noteq> ''use'' \<Longrightarrow>
   walk n D doc tw groups st nx \<noteq> Inl (RangeError, sc)"
proof (induction n arbitrary: tw groups st nx sc)
  case 0
  then show ?case by (auto split: option.splits)
next
  case (Suc n)
  show ?case
  proof (cases nx)
    case None
    then show ?thesis by (simp add: walk_null)
  next
    case (Some nd)
    with Suc.prems(1) have len: "length (remaining tw) < n" and nu: "nodeName nd \<noteq> ''use''"
      by simp_all
    note all = Suc.prems(2)
    note nn = nextNode_all[where P = "\<lambda>x. nodeName x \<noteq> ''use''", OF all]
    have next_ok: "walk n D doc (fst (nextNode tw)) groups st1 (snd (nextNode tw)) \<noteq> Inl (RangeError, sc1)"
      for st1 sc1
    proof (rule Suc.IH[OF _ nn(1)])
      show "case snd (nextNode tw) of None \<Rightarrow> 0 < n
            | Some nd \<Rightarrow> length (remaining (fst (nextNode tw))) + 1 < n \<and> nodeName nd \<noteq> ''use''"
      proof (cases "snd (nextNode tw)")
        case None
        with len show ?thesis by simp
      next
        case (Some x)
        from nextNode_length[OF Some] len nn(2)[OF Some] Some show ?thesis by simp
      qed
    qed
    have "walk (Suc n) D doc tw groups st (Some nd) \<noteq> Inl (RangeError, sc)"
    proof (cases nd rule: name_cases)
      case g
      let ?in = "createTreeWalker (currentNode tw)"
      note ia = inner_all[where P = "\<lambda>x. nodeName x \<noteq> ''use''", OF all]
      note na = nextNode_all[where P = "\<lambda>x. nodeName x \<noteq> ''use''", OF ia]
      have inner: "walk n D doc (fst (nextNode ?in)) gs1 st1 (snd (nextNode ?in)) \<noteq> Inl (RangeError, sc1)"
        for gs1 st1 sc1
      proof (rule Suc.IH[OF _ na(1)])
        show "case snd (nextNode ?in) of None \<Rightarrow> 0 < n
            | Some nd \<Rightarrow> length (remaining (fst (nextNode ?in))) + 1 < n \<and> nodeName nd \<noteq> ''use''"
        proof (cases "snd (nextNode ?in)")
          case None
          with len show ?thesis by simp
        next
          case (Some x)
          from nextNode_length[OF Some] inner_length[of tw] len na(2)[OF Some] Some
          show ?thesis by simp
        qed
      qed
      note sa = nextSibling_all[where P = "\<lambda>x. nodeName x \<noteq> ''use''", OF all]
      have outer: "walk n D doc (fst (nextSibling tw)) groups st1 (snd (nextSibling tw)) \<noteq> Inl (RangeError, sc1)"
        for st1 sc1
      proof (rule Suc.IH[OF _ sa(1)])
        show "case snd (nextSibling tw) of None \<Rightarrow> 0 < n
            | Some nd \<Rightarrow> length (remaining (fst (nextSibling tw))) + 1 < n \<and> nodeName nd \<noteq> ''use''"
        proof (cases "snd (nextSibling tw)")
          case None
          with len show ?thesis by simp
        next
          case (Some x)
          from nextSibling_length[OF Some] len sa(2)[OF Some] Some show ?thesis by simp
        qed
      qed
      from g inner outer show ?thesis
        by (auto simp: walk_g split: sum.splits)
    next
      case use
      with nu show ?thesis by simp
    next
      case advancing
      then show ?thesis
        by (auto simp: walk_advancing next_ok split: sum.splits dest: pushed_error)
    next
      case uncallable
      then show ?thesis by (simp add: walk_uncallable)
    next
      case other
      then show ?thesis by (simp add: walk_other)
    qed
    with Some show ?thesis by simp
  qed
qed

section \<open>Rejected nodes among the siblings to come\<close>

















lemma rejected_not_shown:
  "\<not> nodeValidator u \<Longrightarrow> filter nodeValidator (before @ u # after) = filter nodeValidator (before @ after)"
  by simp

section \<open>Running the walker on the example documents\<close>

lemmas run = createTreeWalker_def nextNode_def nextSibling_def move_def nextNode_step_def
  nodeValidator_def SUPPORTED_TAGS_def walkers_def uncallable_def walk_zero walk_null walk_svg
  walk_g walk_use walk_circle walk_ellipse walk_rect walk_line walk_polygon walk_polyline
  walk_text walk_path walk_uncallable walk_other eval_nat_numeral

lemma use_refs:
  "useId (currentNode (createTreeWalker useNothing)) = None"
  "useId (currentNode (createTreeWalker useEmpty)) = None"
  "useId (currentNode (createTreeWalker useMissing)) = Some ''#zz''"
  "useId (currentNode (createTreeWalker useGroup)) = Some ''#grp''"
  "useId (currentNode (createTreeWalker usePath)) = Some ''#p''"
  "useId (currentNode (createTreeWalker useLine)) = Some ''#pl''"
  "useId (currentNode (createTreeWalker useDigit)) = Some ''#1''"
  by (simp_all add: useId_def createTreeWalker_def useNothing_def useEmpty_def useMissing_def
        useGroup_def usePath_def useLine_def useDigit_def getAttribute_def or_else_def truthy_def)

lemma use_lookups:
  "querySelector basic useDoc ''#zz'' = Inr None"
  "querySelector basic useDoc ''#grp'' =
     Inr (Some (Element ''g'' [(''id'', ''grp'')] [Element ''circle'' [(''r'', ''5'')] []]))"
  "querySelector basic useDoc ''#p'' = Inr (Some twoLoops)"
  "querySelector basic lineDoc ''#pl'' = Inr (Some (Element ''polyline'' [(''id'', ''pl'')] []))"
  "querySelector basic digitDoc ''#1'' = Inl SyntaxError"
  by (simp_all add: basic_sel ref_querySelector_def digit_def useDoc_def useNothing_def useEmpty_def
        useMissing_def useGroup_def usePath_def twoLoops_def lineDoc_def useLine_def digitDoc_def)

lemma use_merged:
  "getDefElWithCorrectAttrs (Element ''g'' [(''id'', ''grp'')] [Element ''circle'' [(''r'', ''5'')] []])
     (currentNode (createTreeWalker useGroup))
   = Element ''g'' [(''id'', ''grp''), (''xlink:href'', ''#grp'')] []"
  "getDefElWithCorrectAttrs twoLoops (currentNode (createTreeWalker usePath))
   = Element ''path'' [(''id'', ''p''), (''d'', ''M0,0 10,0 10,10M2,2 2,8 8,8''),
       (''fill'', ''red''), (''href'', ''#p'')] []"
  "getDefElWithCorrectAttrs (Element ''polyline'' [(''id'', ''pl'')] []) (currentNode (createTreeWalker useLine))
   = Element ''polyline'' [(''id'', ''pl''), (''href'', ''#pl'')] []"
  by (simp_all add: createTreeWalker_def useGroup_def usePath_def useLine_def twoLoops_def merge_run)

lemma mergedLine_fails:
  "polyline_primitive basic (Element ''polyline'' [(''id'', ''pl''), (''href'', ''#pl'')] []) [] = Inl TypeError"
  by (simp add: polyline_primitive_def basic_sel hasAttribute_def getAttribute_def ref_transformPoints_def)

lemma mergedLine_walk:
  "walk 2 basic lineDoc (createTreeWalker (Element ''polyline'' [(''id'', ''pl''), (''href'', ''#pl'')] []))
     [] ([], 0) (Some (Element ''polyline'' [(''id'', ''pl''), (''href'', ''#pl'')] []))
   = Inl (TypeError, [])"
  by (simp add: run mergedLine_fails)

lemma lineDoc_walk:
  "walk 5 basic lineDoc (fst (nextNode (createTreeWalker lineDoc))) [] ([], 0)
     (snd (nextNode (createTreeWalker lineDoc)))
   = Inl (TypeError, [circle_primitive basic (Element ''circle'' [(''r'', ''5'')] []) []])"
  by (simp add: lineDoc_def useLine_def run useId_def getAttribute_def or_else_def truthy_def
        basic_sel(19) ref_querySelector_def digit_def merge_run mergedLine_fails)

lemma digitDoc_walk:
  "walk 5 basic digitDoc (fst (nextNode (createTreeWalker digitDoc))) [] ([], 0)
     (snd (nextNode (createTreeWalker digitDoc)))
   = Inl (SyntaxError, [circle_primitive basic (Element ''circle'' [(''r'', ''5'')] []) []])"
  by (simp add: digitDoc_def useDigit_def run useId_def getAttribute_def or_else_def truthy_def
        basic_sel(19) ref_querySelector_def digit_def)

lemma emptyDoc_walk:
  "walk 5 basic emptyDoc (fst (nextNode (createTreeWalker emptyDoc))) [] ([], 0)
     (snd (nextNode (createTreeWalker emptyDoc)))
   = Inl (UnableToGetId, [circle_primitive basic (Element ''circle'' [(''r'', ''5'')] []) []])"
  by (simp add: emptyDoc_def useEmpty_def run useId_def getAttribute_def or_else_def truthy_def)

lemma protoDoc_walk:
  "walk 5 basic protoDoc (fst (nextNode (createTreeWalker protoDoc))) [] ([], 0)
     (snd (nextNode (createTreeWalker protoDoc)))
   = Inl (TypeError, [])"
  by (simp add: protoDoc_def useProto_def run useId_def getAttribute_def or_else_def truthy_def
        basic_sel(19) ref_querySelector_def digit_def merge_run)

lemma mergedLoops_facts:
  "get basic mergedLoops ''fill-rule'' (Some ''nonzero'') = ''nonzero''"
  "get basic mergedLoops ''fill'' (Some ''transparent'') = ''red''"
  "pointsOnPath basic (get basic mergedLoops ''d'' None) = [[(0,0),(10,0),(10,10)], [(2,2),(2,8),(8,8)]]"
  by (simp_all add: basic_sel mergedLoops_def attr_run parse_run)

lemma mergedLoops_path:
  "path_primitives basic mergedLoops [] 0 =
     Inr ([nonzero_at basic mergedLoops [] (getTransformMatrix basic mergedLoops []) ''red''
             ''counterclockwise'' ''ii'' [(0,0),(10,0),(10,10)],
           nonzero_at basic mergedLoops [] (getTransformMatrix basic mergedLoops []) ''red''
             ''counterclockwise'' ''ii'' [(2,2),(2,8),(8,8)]], 2)"
  by (simp add: path_nonzero mergedLoops_facts twoLoops_facts(4) twoLoops_winding basic_sel(13))

lemma mergedLoops_walk:
  "walk 2 basic useDoc (createTreeWalker mergedLoops) [] ([], 0) (Some mergedLoops) =
     Inr ([nonzero_at basic mergedLoops [] (getTransformMatrix basic mergedLoops []) ''red''
             ''counterclockwise'' ''ii'' [(0,0),(10,0),(10,10)],
           nonzero_at basic mergedLoops [] (getTransformMatrix basic mergedLoops []) ''red''
             ''counterclockwise'' ''ii'' [(2,2),(2,8),(8,8)]], 2)"
proof -
  have "nodeName mergedLoops = ''path''" "currentNode (createTreeWalker mergedLoops) = mergedLoops"
       "snd (nextNode (createTreeWalker mergedLoops)) = None"
    by (simp_all add: mergedLoops_def run)
  then show ?thesis
    by (simp add: eval_nat_numeral walk_path mergedLoops_path walk_null)
qed

lemma useGroup_walk:
  "walk 2 basic useDoc (createTreeWalker (Element ''g'' [(''id'', ''grp''), (''xlink:href'', ''#grp'')] []))
     [] ([], 0) (Some (Element ''g'' [(''id'', ''grp''), (''xlink:href'', ''#grp'')] [])) = Inr ([], 1)"
  by (simp add: run)

section \<open>References\<close>

text \<open>
  C5 (the claim as stated fails). The three cases are not the only ones in which resolving
  a \<^verbatim>\<open>use\<close> element fails. In
  \<^verbatim>\<open><svg><circle r="5"/><use href="#pl"/><polyline id="pl"/></svg>\<close> the element carries
  the reference attribute and the reference finds the polyline, but the walk of the merged
  element throws (the polyline has no point): the conversion ends in that \<^verbatim>\<open>TypeError\<close>,
  which is none of the three errors of the handler. In
  \<^verbatim>\<open><svg><circle r="5"/><use href="#1"/></svg>\<close> the reference is no selector and the
  document query itself throws. In both the scene holds the circle emitted before and
  nothing from the reference. In \<^verbatim>\<open><svg><circle r="5"/><use href=""/></svg>\<close> the
  element does carry the reference attribute, and the handler throws its first error, as
  it does for every empty reference.
\<close>

theorem use_fails_otherwise:
  "getAttribute useLine ''href'' = Some ''#pl''
   \<and> querySelector basic lineDoc ''#pl'' = Inr (Some (Element ''polyline'' [(''id'', ''pl'')] []))
   \<and> walk 5 basic lineDoc (fst (nextNode (createTreeWalker lineDoc))) [] ([], 0)
        (snd (nextNode (createTreeWalker lineDoc)))
      = Inl (TypeError, [circle_primitive basic (Element ''circle'' [(''r'', ''5'')] []) []])
   \<and> TypeError \<notin> {UnableToGetId, UnableToFindDef ''#pl'', UnableToCreateEx}
   \<and> getAttribute useDigit ''href'' = Some ''#1''
   \<and> walk 5 basic digitDoc (fst (nextNode (createTreeWalker digitDoc))) [] ([], 0)
        (snd (nextNode (createTreeWalker digitDoc)))
      = Inl (SyntaxError, [circle_primitive basic (Element ''circle'' [(''r'', ''5'')] []) []])
   \<and> SyntaxError \<notin> {UnableToGetId, UnableToFindDef ''#1'', UnableToCreateEx}
   \<and> hasAttribute useEmpty ''href''
   \<and> walk 5 basic emptyDoc (fst (nextNode (createTreeWalker emptyDoc))) [] ([], 0)
        (snd (nextNode (createTreeWalker emptyDoc)))
      = Inl (UnableToGetId, [circle_primitive basic (Element ''circle'' [(''r'', ''5'')] []) []])"
  by (simp add: lineDoc_walk digitDoc_walk emptyDoc_walk use_lookups useLine_def useDigit_def
        useEmpty_def getAttribute_def hasAttribute_def)

text \<open>
  C5, amended. The call of the \<^verbatim>\<open>use\<close> handler ends in an error, the scene being as it
  was before the call, exactly when one of these holds: neither \<^verbatim>\<open>href\<close> nor
  \<^verbatim>\<open>xlink:href\<close> gives a non-empty reference (the handler's first error); the document
  query throws on the reference (that error); the query finds no element (the handler's
  second error); the walk of the merged element ends in an error (that error); that walk
  returns and the temporary scene is empty (the handler's third error). In every other
  case exactly one primitive, the last of the temporary scene, is appended to the scene and
  the traversal goes on from the next node: whatever the outcome of the call, its scene is
  the old scene, that primitive, and what the rest of the traversal appended. An error is
  not caught on the way out: a group's handler ends in the error in which the walk of its
  subtree ends.
\<close>

theorem use_outcome:
  assumes "nodeName nd = ''use''"
  shows "(useId (currentNode tw) = None \<longrightarrow>
            walk (Suc n) D doc tw groups (scene, k) (Some nd) = Inl (UnableToGetId, scene))
       \<and> (\<forall>ref e. useId (currentNode tw) = Some ref \<and> querySelector D doc ref = Inl e \<longrightarrow>
            walk (Suc n) D doc tw groups (scene, k) (Some nd) = Inl (e, scene))
       \<and> (\<forall>ref. useId (currentNode tw) = Some ref \<and> querySelector D doc ref = Inr None \<longrightarrow>
            walk (Suc n) D doc tw groups (scene, k) (Some nd) = Inl (UnableToFindDef ref, scene))
       \<and> (\<forall>ref defEl. useId (currentNode tw) = Some ref \<and> querySelector D doc ref = Inr (Some defEl) \<longrightarrow>
            (case walk n D doc (createTreeWalker (getDefElWithCorrectAttrs defEl (currentNode tw)))
                    groups ([], k) (Some (getDefElWithCorrectAttrs defEl (currentNode tw))) of
               Inl thrown \<Rightarrow>
                 walk (Suc n) D doc tw groups (scene, k) (Some nd) = Inl (fst thrown, scene)
             | Inr temp \<Rightarrow>
                 (if fst temp = []
                  then walk (Suc n) D doc tw groups (scene, k) (Some nd) = Inl (UnableToCreateEx, scene)
                  else walk (Suc n) D doc tw groups (scene, k) (Some nd) =
                         walk n D doc (fst (nextNode tw)) groups
                           (scene @ [last (fst temp)], snd temp) (snd (nextNode tw))
                     \<and> (\<exists>rest. scene_of (walk (Suc n) D doc tw groups (scene, k) (Some nd)) =
                           scene @ last (fst temp) # rest))))
       \<and> (\<forall>gnd gtw ggroups gst thrown.
            nodeName gnd = ''g'' \<and>
            walk n D doc (fst (nextNode (createTreeWalker (currentNode gtw))))
              (ggroups @ [newGroup D (snd gst) (currentNode gtw)]) (fst gst, Suc (snd gst))
              (snd (nextNode (createTreeWalker (currentNode gtw)))) = Inl thrown \<longrightarrow>
            walk (Suc n) D doc gtw ggroups gst (Some gnd) = Inl thrown)"
proof -
  have last_kept: "\<exists>rest. scene_of (walk (Suc n) D doc tw groups (scene, k) (Some nd)) =
                           scene @ last (fst temp) # rest"
    if "walk (Suc n) D doc tw groups (scene, k) (Some nd) =
          walk n D doc (fst (nextNode tw)) groups (scene @ [last (fst temp)], snd temp) (snd (nextNode tw))"
    for temp
  proof -
    from walk_prefix[of n D doc "fst (nextNode tw)" groups "(scene @ [last (fst temp)], snd temp)"
        "snd (nextNode tw)"]
    obtain new where "scene_of (walk n D doc (fst (nextNode tw)) groups
        (scene @ [last (fst temp)], snd temp) (snd (nextNode tw))) = (scene @ [last (fst temp)]) @ new"
      by auto
    with that show ?thesis by (intro exI[of _ new]) simp
  qed
  have resolved: "case walk n D doc (createTreeWalker (getDefElWithCorrectAttrs defEl (currentNode tw)))
                    groups ([], k) (Some (getDefElWithCorrectAttrs defEl (currentNode tw))) of
               Inl thrown \<Rightarrow>
                 walk (Suc n) D doc tw groups (scene, k) (Some nd) = Inl (fst thrown, scene)
             | Inr temp \<Rightarrow>
                 (if fst temp = []
                  then walk (Suc n) D doc tw groups (scene, k) (Some nd) = Inl (UnableToCreateEx, scene)
                  else walk (Suc n) D doc tw groups (scene, k) (Some nd) =
                         walk n D doc (fst (nextNode tw)) groups
                           (scene @ [last (fst temp)], snd temp) (snd (nextNode tw))
                     \<and> (\<exists>rest. scene_of (walk (Suc n) D doc tw groups (scene, k) (Some nd)) =
                           scene @ last (fst temp) # rest))"
    if "useId (currentNode tw) = Some ref" "querySelector D doc ref = Inr (Some defEl)" for ref defEl
  proof (cases "walk n D doc (createTreeWalker (getDefElWithCorrectAttrs defEl (currentNode tw)))
                    groups ([], k) (Some (getDefElWithCorrectAttrs defEl (currentNode tw)))")
    case (Inl thrown)
    with assms that show ?thesis by (simp add: walk_use)
  next
    case (Inr temp)
    show ?thesis
    proof (cases "fst temp = []")
      case True
      with assms that Inr show ?thesis by (simp add: walk_use)
    next
      case False
      with assms that Inr
      have eq: "walk (Suc n) D doc tw groups (scene, k) (Some nd) =
          walk n D doc (fst (nextNode tw)) groups (scene @ [last (fst temp)], snd temp) (snd (nextNode tw))"
        by (simp add: walk_use)
      from eq last_kept[OF eq] Inr False show ?thesis by simp
    qed
  qed
  have early: "useId (currentNode tw) = None \<longrightarrow>
            walk (Suc n) D doc tw groups (scene, k) (Some nd) = Inl (UnableToGetId, scene)"
    "\<forall>ref e. useId (currentNode tw) = Some ref \<and> querySelector D doc ref = Inl e \<longrightarrow>
            walk (Suc n) D doc tw groups (scene, k) (Some nd) = Inl (e, scene)"
    "\<forall>ref. useId (currentNode tw) = Some ref \<and> querySelector D doc ref = Inr None \<longrightarrow>
            walk (Suc n) D doc tw groups (scene, k) (Some nd) = Inl (UnableToFindDef ref, scene)"
    using assms by (simp_all add: walk_use)
  have group: "\<forall>gnd gtw ggroups gst thrown.
            nodeName gnd = ''g'' \<and>
            walk n D doc (fst (nextNode (createTreeWalker (currentNode gtw))))
              (ggroups @ [newGroup D (snd gst) (currentNode gtw)]) (fst gst, Suc (snd gst))
              (snd (nextNode (createTreeWalker (currentNode gtw)))) = Inl thrown \<longrightarrow>
            walk (Suc n) D doc gtw ggroups gst (Some gnd) = Inl thrown"
    by (simp add: walk_g)
  from early resolved group show ?thesis by blast
qed

theorem use_outcome_witness:
  "nodeName useNothing = ''use''
   \<and> walk 3 basic useDoc (createTreeWalker useNothing) [] ([createExRect basic], 0) (Some useNothing)
       = Inl (UnableToGetId, [createExRect basic])
   \<and> walk 3 basic useDoc (createTreeWalker useEmpty) [] ([createExRect basic], 0) (Some useEmpty)
       = Inl (UnableToGetId, [createExRect basic])
   \<and> walk 3 basic digitDoc (createTreeWalker useDigit) [] ([createExRect basic], 0) (Some useDigit)
       = Inl (SyntaxError, [createExRect basic])
   \<and> walk 3 basic useDoc (createTreeWalker useMissing) [] ([createExRect basic], 0) (Some useMissing)
       = Inl (UnableToFindDef ''#zz'', [createExRect basic])
   \<and> walk 3 basic lineDoc (createTreeWalker useLine) [] ([createExRect basic], 0) (Some useLine)
       = Inl (TypeError, [createExRect basic])
   \<and> walk 3 basic useDoc (createTreeWalker useGroup) [] ([createExRect basic], 0) (Some useGroup)
       = Inl (UnableToCreateEx, [createExRect basic])
   \<and> walk 3 basic useDoc (createTreeWalker usePath) [] ([createExRect basic], 0) (Some usePath)
       = Inr ([createExRect basic,
               nonzero_at basic mergedLoops [] (getTransformMatrix basic mergedLoops []) ''red''
                 ''counterclockwise'' ''ii'' [(2,2),(2,8),(8,8)]], 2)"
proof -
  have names: "nodeName useNothing = ''use''" "nodeName useEmpty = ''use''"
    "nodeName useMissing = ''use''" "nodeName useGroup = ''use''" "nodeName usePath = ''use''"
    "nodeName useLine = ''use''" "nodeName useDigit = ''use''"
    by (simp_all add: useNothing_def useEmpty_def useMissing_def useGroup_def usePath_def
          useLine_def useDigit_def)
  have three: "(3::nat) = Suc 2" by simp
  have next_none: "snd (nextNode (createTreeWalker usePath)) = None"
    by (simp add: usePath_def run)
  have cont: "walk 2 basic useDoc tw [] st None = Inr st" for tw st
    by (simp add: eval_nat_numeral walk_null)
  note o1 = use_outcome[OF names(1), of "createTreeWalker useNothing" 2 basic useDoc "[]"
              "[createExRect basic]" 0]
  note o2 = use_outcome[OF names(2), of "createTreeWalker useEmpty" 2 basic useDoc "[]"
              "[createExRect basic]" 0]
  note o3 = use_outcome[OF names(3), of "createTreeWalker useMissing" 2 basic useDoc "[]"
              "[createExRect basic]" 0]
  note o4 = use_outcome[OF names(4), of "createTreeWalker useGroup" 2 basic useDoc "[]"
              "[createExRect basic]" 0]
  note o5 = use_outcome[OF names(5), of "createTreeWalker usePath" 2 basic useDoc "[]"
              "[createExRect basic]" 0]
  note o6 = use_outcome[OF names(6), of "createTreeWalker useLine" 2 basic lineDoc "[]"
              "[createExRect basic]" 0]
  note o7 = use_outcome[OF names(7), of "createTreeWalker useDigit" 2 basic digitDoc "[]"
              "[createExRect basic]" 0]
  from o1 have r1: "walk 3 basic useDoc (createTreeWalker useNothing) [] ([createExRect basic], 0)
      (Some useNothing) = Inl (UnableToGetId, [createExRect basic])"
    unfolding three by (simp add: use_refs)
  from o2 have r2: "walk 3 basic useDoc (createTreeWalker useEmpty) [] ([createExRect basic], 0)
      (Some useEmpty) = Inl (UnableToGetId, [createExRect basic])"
    unfolding three by (simp add: use_refs)
  from o3 have r3: "walk 3 basic useDoc (createTreeWalker useMissing) [] ([createExRect basic], 0)
      (Some useMissing) = Inl (UnableToFindDef ''#zz'', [createExRect basic])"
    unfolding three by (simp add: use_refs use_lookups)
  from o4 have r4: "walk 3 basic useDoc (createTreeWalker useGroup) [] ([createExRect basic], 0)
      (Some useGroup) = Inl (UnableToCreateEx, [createExRect basic])"
    unfolding three by (simp add: use_refs use_lookups use_merged useGroup_walk)
  from o5 have r5: "walk 3 basic useDoc (createTreeWalker usePath) [] ([createExRect basic], 0)
      (Some usePath)
       = Inr ([createExRect basic,
               nonzero_at basic mergedLoops [] (getTransformMatrix basic mergedLoops []) ''red''
                 ''counterclockwise'' ''ii'' [(2,2),(2,8),(8,8)]], 2)"
    unfolding three
    by (simp add: use_refs use_lookups use_merged mergedLoops_def[symmetric] mergedLoops_walk
          next_none cont)
  from o6 have r6: "walk 3 basic lineDoc (createTreeWalker useLine) [] ([createExRect basic], 0)
      (Some useLine) = Inl (TypeError, [createExRect basic])"
    unfolding three by (simp add: use_refs use_lookups use_merged mergedLine_walk)
  from o7 have r7: "walk 3 basic digitDoc (createTreeWalker useDigit) [] ([createExRect basic], 0)
      (Some useDigit) = Inl (SyntaxError, [createExRect basic])"
    unfolding three by (simp add: use_refs use_lookups)
  from names(1) r1 r2 r3 r4 r5 r6 r7 show ?thesis by simp
qed

text \<open>
  C10. When the walk of the merged element leaves more than one primitive in the temporary
  scene, the one appended to the real scene is the last of them: the traversal goes on with
  the scene extended by that primitive alone, and whatever it returns begins with the old
  scene followed by that primitive (so does the scene left behind if the rest of the
  traversal throws).
\<close>

theorem use_keeps_last:
  assumes "nodeName nd = ''use''"
      and "useId (currentNode tw) = Some ref"
      and "querySelector D doc ref = Inr (Some defEl)"
      and "walk n D doc (createTreeWalker (getDefElWithCorrectAttrs defEl (currentNode tw)))
             groups ([], k) (Some (getDefElWithCorrectAttrs defEl (currentNode tw))) = Inr (temp, k1)"
      and "1 < length temp"
  shows "walk (Suc n) D doc tw groups (scene, k) (Some nd) =
           walk n D doc (fst (nextNode tw)) groups (scene @ [last temp], k1) (snd (nextNode tw))
       \<and> (\<forall>scene' k'. walk (Suc n) D doc tw groups (scene, k) (Some nd) = Inr (scene', k') \<longrightarrow>
             (\<exists>rest. scene' = scene @ last temp # rest))
       \<and> (\<forall>e scene'. walk (Suc n) D doc tw groups (scene, k) (Some nd) = Inl (e, scene') \<longrightarrow>
             (\<exists>rest. scene' = scene @ last temp # rest))"
proof -
  from assms(5) have ne: "temp \<noteq> []" by auto
  have eq: "walk (Suc n) D doc tw groups (scene, k) (Some nd) =
           walk n D doc (fst (nextNode tw)) groups (scene @ [last temp], k1) (snd (nextNode tw))"
    using assms(1-4) ne by (simp add: walk_use)
  from walk_prefix[of n D doc "fst (nextNode tw)" groups "(scene @ [last temp], k1)" "snd (nextNode tw)"]
  obtain new where "scene_of (walk n D doc (fst (nextNode tw)) groups (scene @ [last temp], k1)
      (snd (nextNode tw))) = (scene @ [last temp]) @ new" by auto
  with eq have sc: "scene_of (walk (Suc n) D doc tw groups (scene, k) (Some nd)) = scene @ last temp # new"
    by simp
  have a: "\<exists>rest. scene' = scene @ last temp # rest"
    if "walk (Suc n) D doc tw groups (scene, k) (Some nd) = Inr (scene', k')" for scene' k'
    using sc that by (simp add: scene_of_def)
  have b: "\<exists>rest. scene' = scene @ last temp # rest"
    if "walk (Suc n) D doc tw groups (scene, k) (Some nd) = Inl (e, scene')" for e scene'
    using sc that by (simp add: scene_of_def)
  from eq a b show ?thesis by blast
qed

theorem use_keeps_last_witness:
  "nodeName usePath = ''use''
   \<and> useId (currentNode (createTreeWalker usePath)) = Some ''#p''
   \<and> querySelector basic useDoc ''#p'' = Inr (Some twoLoops)
   \<and> walk 2 basic useDoc (createTreeWalker mergedLoops) [] ([], 0) (Some mergedLoops) =
       Inr ([nonzero_at basic mergedLoops [] (getTransformMatrix basic mergedLoops []) ''red''
               ''counterclockwise'' ''ii'' [(0,0),(10,0),(10,10)],
             nonzero_at basic mergedLoops [] (getTransformMatrix basic mergedLoops []) ''red''
               ''counterclockwise'' ''ii'' [(2,2),(2,8),(8,8)]], 2)
   \<and> walk 3 basic useDoc (createTreeWalker usePath) [] ([], 0) (Some usePath)
       = Inr ([nonzero_at basic mergedLoops [] (getTransformMatrix basic mergedLoops []) ''red''
                 ''counterclockwise'' ''ii'' [(2,2),(2,8),(8,8)]], 2)"
proof -
  have name: "nodeName usePath = ''use''" by (simp add: usePath_def)
  have three: "(3::nat) = Suc 2" by simp
  have next_none: "snd (nextNode (createTreeWalker usePath)) = None"
    by (simp add: usePath_def run)
  have cont: "walk 2 basic useDoc tw [] st None = Inr st" for tw st
    by (simp add: eval_nat_numeral walk_null)
  have inner: "walk 2 basic useDoc
      (createTreeWalker (getDefElWithCorrectAttrs twoLoops (currentNode (createTreeWalker usePath))))
      [] ([], 0) (Some (getDefElWithCorrectAttrs twoLoops (currentNode (createTreeWalker usePath)))) =
       Inr ([nonzero_at basic mergedLoops [] (getTransformMatrix basic mergedLoops []) ''red''
               ''counterclockwise'' ''ii'' [(0,0),(10,0),(10,10)],
             nonzero_at basic mergedLoops [] (getTransformMatrix basic mergedLoops []) ''red''
               ''counterclockwise'' ''ii'' [(2,2),(2,8),(8,8)]], 2)"
    by (simp add: use_merged mergedLoops_def[symmetric] mergedLoops_walk)
  from use_keeps_last[OF name use_refs(5) use_lookups(3) inner, of "[]"]
  have "walk 3 basic useDoc (createTreeWalker usePath) [] ([], 0) (Some usePath)
       = Inr ([nonzero_at basic mergedLoops [] (getTransformMatrix basic mergedLoops []) ''red''
                 ''counterclockwise'' ''ii'' [(2,2),(2,8),(8,8)]], 2)"
    unfolding three by (simp add: next_none cont)
  with name use_refs(5) use_lookups(3) mergedLoops_walk show ?thesis by simp
qed

section \<open>Unsupported nodes\<close>








lemma basic_ids_inj: "inj (randomId basic)"
proof (rule injI)
  fix a b assume "randomId basic a = randomId basic b"
  then have "length (replicate (Suc a) CHR ''i'') = length (replicate (Suc b) CHR ''i'')"
    by (simp add: basic_sel(13))
  then show "a = b" by simp
qed

section \<open>Groups\<close>

text \<open>
  C6 (the claim as stated fails). The primitives of a \<^verbatim>\<open>nonzero\<close> path are written with
  \<^verbatim>\<open>groupIds: [localGroup]\<close>: in \<^verbatim>\<open><g><path d="M0,0 10,0 10,10"/></g>\<close> the group's
  identifier is \<^verbatim>\<open>i\<close> and the path's primitive lists \<^verbatim>\<open>iii\<close> only.
\<close>

theorem path_ignores_group:
  "walk 3 basic (Document [groupedPath]) (createTreeWalker groupedPath) [] ([], 0) (Some groupedPath)
     = Inr ([nonzero_at basic (Element ''path'' [(''d'', ''M0,0 10,0 10,10'')] [])
               [newGroup basic 0 groupedPath]
               (getTransformMatrix basic (Element ''path'' [(''d'', ''M0,0 10,0 10,10'')] [])
                  [newGroup basic 0 groupedPath])
               ''transparent'' ''counterclockwise'' ''iii'' [(0,0),(10,0),(10,10)]], 3)
   \<and> group_id (newGroup basic 0 groupedPath) = ''i''
   \<and> nonzero_at basic (Element ''path'' [(''d'', ''M0,0 10,0 10,10'')] [])
               [newGroup basic 0 groupedPath]
               (getTransformMatrix basic (Element ''path'' [(''d'', ''M0,0 10,0 10,10'')] [])
                  [newGroup basic 0 groupedPath])
               ''transparent'' ''counterclockwise'' ''iii'' [(0,0),(10,0),(10,10)] ''groupIds''
       = Some (Ids [''iii''])"
proof -
  let ?p = "Element ''path'' [(''d'', ''M0,0 10,0 10,10'')] []"
  have facts: "get basic ?p ''fill-rule'' (Some ''nonzero'') = ''nonzero''"
    "get basic ?p ''fill'' (Some ''transparent'') = ''transparent''"
    "pointsOnPath basic (get basic ?p ''d'' None) = [[(0,0),(10,0),(10,10)]]"
    by (simp_all add: basic_sel attr_run parse_run)
  have path: "path_primitives basic ?p [newGroup basic 0 groupedPath] 1 =
     Inr ([nonzero_at basic ?p [newGroup basic 0 groupedPath]
             (getTransformMatrix basic ?p [newGroup basic 0 groupedPath])
             ''transparent'' ''counterclockwise'' ''iii'' [(0,0),(10,0),(10,10)]], 3)"
    by (simp add: path_nonzero facts twoLoops_facts(4) twoLoops_winding basic_sel(13) eval_nat_numeral)
  have "walk 3 basic (Document [groupedPath]) (createTreeWalker groupedPath) [] ([], 0) (Some groupedPath)
     = Inr ([nonzero_at basic ?p [newGroup basic 0 groupedPath]
               (getTransformMatrix basic ?p [newGroup basic 0 groupedPath])
               ''transparent'' ''counterclockwise'' ''iii'' [(0,0),(10,0),(10,10)]], 3)"
    using path by (simp add: groupedPath_def run)
  then show ?thesis
    by (simp add: nonzero_at_fields newGroup_def basic_sel(13))
qed

lemma placed_inside:
  assumes "placed D (groups @ [G]) (Suc k) e og" and "group_id G = randomId D k"
      and "inj (randomId D)"
  shows "case og of (name, el, gs) \<Rightarrow>
           (\<exists>ext. gs = groups @ G # ext)
         \<and> (name = ''circle'' \<or> name = ''ellipse'' \<longrightarrow>
              e ''groupIds'' = Some (Ids (map group_id gs)) \<and> randomId D k \<in> set (map group_id gs))
         \<and> (name = ''path'' \<and> get D el ''fill-rule'' (Some ''nonzero'') = ''nonzero'' \<longrightarrow>
              (\<exists>j. randomId D j \<noteq> randomId D k \<and> e ''groupIds'' = Some (Ids [randomId D j])))"
proof -
  obtain name el gs where og: "og = (name, el, gs)" by (cases og)
  from assms(1)[unfolded og] show ?thesis unfolding og
  proof (rule placedE)
    fix ext
    assume m: "gs = (groups @ [G]) @ ext"
      "name = ''circle'' \<or> name = ''ellipse'' \<Longrightarrow> e ''groupIds'' = Some (Ids (map group_id gs))"
      "name = ''path'' \<Longrightarrow> get D el ''fill-rule'' (Some ''nonzero'') = ''nonzero'' \<Longrightarrow>
             \<exists>j>Suc k. e ''groupIds'' = Some (Ids [randomId D j])"
    have a: "\<exists>ext. gs = groups @ G # ext" using m(1) by simp
    have b: "randomId D k \<in> set (map group_id gs)" using m(1) assms(2) by force
    have c: "\<exists>j. randomId D j \<noteq> randomId D k \<and> e ''groupIds'' = Some (Ids [randomId D j])"
      if "name = ''path''" "get D el ''fill-rule'' (Some ''nonzero'') = ''nonzero''"
    proof -
      from m(3)[OF that] obtain j where j: "Suc k < j" "e ''groupIds'' = Some (Ids [randomId D j])" by blast
      with assms(3) have "randomId D j \<noteq> randomId D k" by (auto dest: injD)
      with j(2) show ?thesis by (intro exI[of _ j]) simp
    qed
    from a b c m(2) show "case (name, el, gs) of (name, el, gs) \<Rightarrow>
           (\<exists>ext. gs = groups @ G # ext)
         \<and> (name = ''circle'' \<or> name = ''ellipse'' \<longrightarrow>
              e ''groupIds'' = Some (Ids (map group_id gs)) \<and> randomId D k \<in> set (map group_id gs))
         \<and> (name = ''path'' \<and> get D el ''fill-rule'' (Some ''nonzero'') = ''nonzero'' \<longrightarrow>
              (\<exists>j. randomId D j \<noteq> randomId D k \<and> e ''groupIds'' = Some (Ids [randomId D j])))"
      by simp
  qed
qed

lemma placed_outside:
  assumes "placed D groups k1 e og" and "k < k1" and "inj (randomId D)"
      and "\<forall>g \<in> set groups. \<exists>j<k. group_id g = randomId D j"
  shows "case og of (name, el, gs) \<Rightarrow>
           (\<exists>ext. gs = groups @ ext) \<and> randomId D k \<notin> set (map group_id gs)
         \<and> (name = ''circle'' \<or> name = ''ellipse'' \<longrightarrow>
              e ''groupIds'' = Some (Ids (map group_id gs)))
         \<and> (name = ''path'' \<and> get D el ''fill-rule'' (Some ''nonzero'') = ''nonzero'' \<longrightarrow>
              (\<exists>j. randomId D j \<noteq> randomId D k \<and> e ''groupIds'' = Some (Ids [randomId D j])))"
proof -
  obtain name el gs where og: "og = (name, el, gs)" by (cases og)
  from assms(1)[unfolded og] show ?thesis unfolding og
  proof (rule placedE)
    fix ext
    assume m: "gs = groups @ ext" "\<And>g. g \<in> set ext \<Longrightarrow> \<exists>j\<ge>k1. group_id g = randomId D j"
      "name = ''circle'' \<or> name = ''ellipse'' \<Longrightarrow> e ''groupIds'' = Some (Ids (map group_id gs))"
      "name = ''path'' \<Longrightarrow> get D el ''fill-rule'' (Some ''nonzero'') = ''nonzero'' \<Longrightarrow>
             \<exists>j>k1. e ''groupIds'' = Some (Ids [randomId D j])"
    have a: "\<exists>ext. gs = groups @ ext" using m(1) by simp
    have b: "randomId D k \<notin> set (map group_id gs)"
    proof
      assume "randomId D k \<in> set (map group_id gs)"
      then obtain g where g: "g \<in> set gs" "group_id g = randomId D k" by auto
      from g(1) m(1) consider "g \<in> set groups" | "g \<in> set ext" by auto
      then show False
      proof cases
        case 1
        with assms(4) obtain j where "j < k" "group_id g = randomId D j" by blast
        with g(2) assms(3) show False by (auto dest: injD)
      next
        case 2
        from m(2)[OF this] obtain j where "k1 \<le> j" "group_id g = randomId D j" by blast
        with g(2) assms(2,3) show False by (auto dest: injD)
      qed
    qed
    have c: "\<exists>j. randomId D j \<noteq> randomId D k \<and> e ''groupIds'' = Some (Ids [randomId D j])"
      if "name = ''path''" "get D el ''fill-rule'' (Some ''nonzero'') = ''nonzero''"
    proof -
      from m(4)[OF that] obtain j where j: "k1 < j" "e ''groupIds'' = Some (Ids [randomId D j])" by blast
      with assms(2,3) have "randomId D j \<noteq> randomId D k" by (auto dest: injD)
      with j(2) show ?thesis by (intro exI[of _ j]) simp
    qed
    from a b c m(3) show "case (name, el, gs) of (name, el, gs) \<Rightarrow>
           (\<exists>ext. gs = groups @ ext) \<and> randomId D k \<notin> set (map group_id gs)
         \<and> (name = ''circle'' \<or> name = ''ellipse'' \<longrightarrow>
              e ''groupIds'' = Some (Ids (map group_id gs)))
         \<and> (name = ''path'' \<and> get D el ''fill-rule'' (Some ''nonzero'') = ''nonzero'' \<longrightarrow>
              (\<exists>j. randomId D j \<noteq> randomId D k \<and> e ''groupIds'' = Some (Ids [randomId D j])))"
      by simp
  qed
qed

text \<open>
  C6, amended. When the traversal of a group node returns, the scene is the old scene,
  then the primitives emitted inside the group, then those emitted from the next sibling
  on. Every primitive emitted inside was built under a group sequence that extends the
  enclosing one by the group's own record (and possibly by groups nested in it); if a
  circle or ellipse handler built it, it lists the identifiers of that sequence, the
  group's own among them; if the path handler built it under the fill rule
  \<^verbatim>\<open>nonzero\<close>, it lists one identifier, which is not the group's. Every primitive
  emitted afterwards was built under a sequence that extends the enclosing one without the
  group's identifier: the traversal continues at the next sibling with the original
  sequence, and the primitives of circles, ellipses and \<^verbatim>\<open>nonzero\<close> paths emitted there
  do not list the group's identifier. (Identifiers are pairwise distinct and the enclosing
  groups' identifiers were drawn earlier.)
\<close>

theorem group_scope:
  assumes "nodeName nd = ''g''"
      and "walk (Suc n) D doc tw groups (scene, k) (Some nd) = Inr (scene', k')"
      and "inj (randomId D)"
      and "\<forall>g \<in> set groups. \<exists>j<k. group_id g = randomId D j"
  shows "\<exists>inside after k1.
           walk n D doc (fst (nextNode (createTreeWalker (currentNode tw))))
             (groups @ [newGroup D k (currentNode tw)]) (scene, Suc k)
             (snd (nextNode (createTreeWalker (currentNode tw)))) = Inr (scene @ inside, k1)
         \<and> walk n D doc (fst (nextSibling tw)) groups (scene @ inside, k1) (snd (nextSibling tw))
             = Inr (scene @ inside @ after, k')
         \<and> scene' = scene @ inside @ after
         \<and> list_all2
             (\<lambda>e og. case og of (name, el, gs) \<Rightarrow>
                (\<exists>ext. gs = groups @ newGroup D k (currentNode tw) # ext)
              \<and> (name = ''circle'' \<or> name = ''ellipse'' \<longrightarrow>
                   e ''groupIds'' = Some (Ids (map group_id gs)) \<and>
                   randomId D k \<in> set (map group_id gs))
              \<and> (name = ''path'' \<and> get D el ''fill-rule'' (Some ''nonzero'') = ''nonzero'' \<longrightarrow>
                   (\<exists>j. randomId D j \<noteq> randomId D k \<and> e ''groupIds'' = Some (Ids [randomId D j]))))
             inside
             (origins n D doc (fst (nextNode (createTreeWalker (currentNode tw))))
                (groups @ [newGroup D k (currentNode tw)]) (scene, Suc k)
                (snd (nextNode (createTreeWalker (currentNode tw)))))
         \<and> list_all2
             (\<lambda>e og. case og of (name, el, gs) \<Rightarrow>
                (\<exists>ext. gs = groups @ ext) \<and> randomId D k \<notin> set (map group_id gs)
              \<and> (name = ''circle'' \<or> name = ''ellipse'' \<longrightarrow>
                   e ''groupIds'' = Some (Ids (map group_id gs)))
              \<and> (name = ''path'' \<and> get D el ''fill-rule'' (Some ''nonzero'') = ''nonzero'' \<longrightarrow>
                   (\<exists>j. randomId D j \<noteq> randomId D k \<and> e ''groupIds'' = Some (Ids [randomId D j]))))
             after
             (origins n D doc (fst (nextSibling tw)) groups (scene @ inside, k1)
                (snd (nextSibling tw)))"
proof -
  let ?G = "newGroup D k (currentNode tw)"
  let ?in = "createTreeWalker (currentNode tw)"
  from assms(1,2) obtain st1 where
    a: "walk n D doc (fst (nextNode ?in)) (groups @ [?G]) (scene, Suc k) (snd (nextNode ?in)) = Inr st1"
    and b: "walk n D doc (fst (nextSibling tw)) groups st1 (snd (nextSibling tw)) = Inr (scene', k')"
    by (simp add: walk_g split: sum.splits)
  from walk_origins[of n D doc "fst (nextNode ?in)" "groups @ [?G]" "(scene, Suc k)" "snd (nextNode ?in)"] a
  obtain inside where i: "fst st1 = scene @ inside"
    "list_all2 (placed D (groups @ [?G]) (Suc k)) inside
       (origins n D doc (fst (nextNode ?in)) (groups @ [?G]) (scene, Suc k) (snd (nextNode ?in)))"
    by (auto simp: scene_of_def)
  from walk_origins[of n D doc "fst (nextSibling tw)" groups st1 "snd (nextSibling tw)"] b
  obtain after where f: "scene' = fst st1 @ after"
    "list_all2 (placed D groups (snd st1)) after
       (origins n D doc (fst (nextSibling tw)) groups st1 (snd (nextSibling tw)))"
    by (auto simp: scene_of_def)
  from walk_draws[OF a] have k1: "k < snd st1" by simp
  have st1: "st1 = (scene @ inside, snd st1)" using i(1) by (cases st1) simp
  have gid: "group_id ?G = randomId D k" by (simp add: newGroup_def)
  have a': "walk n D doc (fst (nextNode ?in)) (groups @ [?G]) (scene, Suc k) (snd (nextNode ?in))
      = Inr (scene @ inside, snd st1)"
    using a st1 by simp
  have b': "walk n D doc (fst (nextSibling tw)) groups (scene @ inside, snd st1) (snd (nextSibling tw))
             = Inr (scene @ inside @ after, k')"
    using b st1 f(1) i(1) by simp
  have s': "scene' = scene @ inside @ after" using f(1) i(1) by simp
  have inside_ok: "list_all2
             (\<lambda>e og. case og of (name, el, gs) \<Rightarrow>
                (\<exists>ext. gs = groups @ ?G # ext)
              \<and> (name = ''circle'' \<or> name = ''ellipse'' \<longrightarrow>
                   e ''groupIds'' = Some (Ids (map group_id gs)) \<and>
                   randomId D k \<in> set (map group_id gs))
              \<and> (name = ''path'' \<and> get D el ''fill-rule'' (Some ''nonzero'') = ''nonzero'' \<longrightarrow>
                   (\<exists>j. randomId D j \<noteq> randomId D k \<and> e ''groupIds'' = Some (Ids [randomId D j]))))
             inside
             (origins n D doc (fst (nextNode ?in)) (groups @ [?G]) (scene, Suc k) (snd (nextNode ?in)))"
    using i(2) by (rule list_all2_mono) (rule placed_inside[OF _ gid assms(3)])
  have after_ok: "list_all2
             (\<lambda>e og. case og of (name, el, gs) \<Rightarrow>
                (\<exists>ext. gs = groups @ ext) \<and> randomId D k \<notin> set (map group_id gs)
              \<and> (name = ''circle'' \<or> name = ''ellipse'' \<longrightarrow>
                   e ''groupIds'' = Some (Ids (map group_id gs)))
              \<and> (name = ''path'' \<and> get D el ''fill-rule'' (Some ''nonzero'') = ''nonzero'' \<longrightarrow>
                   (\<exists>j. randomId D j \<noteq> randomId D k \<and> e ''groupIds'' = Some (Ids [randomId D j]))))
             after
             (origins n D doc (fst (nextSibling tw)) groups (scene @ inside, snd st1)
                (snd (nextSibling tw)))"
    using f(2)[unfolded st1[symmetric]] st1
    by (intro list_all2_mono[OF _ placed_outside[OF _ k1 assms(3,4)]]) simp_all
  show ?thesis
    by (rule exI[of _ inside], rule exI[of _ after], rule exI[of _ "snd st1"])
       (intro conjI a' b' s' inside_ok after_ok)
qed

lemmas trace = origins_zero origins_null origins_g origins_use origins_advancing origins_other
  advancing_def pushed_def

lemma atFirstGroup_eq: "fst (nextNode (createTreeWalker groupsDoc)) = atFirstGroup"
  by (simp add: atFirstGroup_def groupsDoc_def firstGroup_def secondGroup_def run)

lemma groupsDoc_run:
  "walk 5 basic (Document [groupsDoc]) atFirstGroup [] ([], 0) (Some firstGroup)
   = Inr ([circle_primitive basic (Element ''circle'' [(''r'', ''5'')] []) [newGroup basic 0 firstGroup],
           rect_primitive basic (Element ''rect'' [] []) [newGroup basic 0 firstGroup],
           ellipse_primitive basic (Element ''ellipse'' [] []) [newGroup basic 0 firstGroup],
           circle_primitive basic (Element ''circle'' [(''r'', ''2'')] []) [newGroup basic 1 secondGroup]],
          2)"
  by (simp add: atFirstGroup_def groupsDoc_def firstGroup_def secondGroup_def run)

lemma firstGroup_origins:
  "origins 4 basic (Document [groupsDoc]) (fst (nextNode (createTreeWalker firstGroup)))
     [newGroup basic 0 firstGroup] ([], 1) (snd (nextNode (createTreeWalker firstGroup)))
   = [(''circle'', Element ''circle'' [(''r'', ''5'')] [], [newGroup basic 0 firstGroup]),
      (''rect'', Element ''rect'' [] [], [newGroup basic 0 firstGroup]),
      (''ellipse'', Element ''ellipse'' [] [], [newGroup basic 0 firstGroup])]"
  by (simp add: firstGroup_def run trace)

lemma firstGroup_ids:
  "circle_primitive basic (Element ''circle'' [(''r'', ''5'')] []) [newGroup basic 0 firstGroup] ''groupIds''
     = Some (Ids [''i''])"
  "ellipse_primitive basic (Element ''ellipse'' [] []) [newGroup basic 0 firstGroup] ''groupIds''
     = Some (Ids [''i''])"
  "circle_primitive basic (Element ''circle'' [(''r'', ''2'')] []) [newGroup basic 1 secondGroup] ''groupIds''
     = Some (Ids [''ii''])"
  by (simp_all add: circle_primitive_def ellipse_primitive_def Let_def newGroup_def basic_sel(13)
        eval_nat_numeral)

theorem group_scope_witness:
  "nodeName firstGroup = ''g''
   \<and> inj (randomId basic)
   \<and> walk 5 basic (Document [groupsDoc]) atFirstGroup [] ([], 0) (Some firstGroup)
      = Inr ([circle_primitive basic (Element ''circle'' [(''r'', ''5'')] []) [newGroup basic 0 firstGroup],
           rect_primitive basic (Element ''rect'' [] []) [newGroup basic 0 firstGroup],
           ellipse_primitive basic (Element ''ellipse'' [] []) [newGroup basic 0 firstGroup],
           circle_primitive basic (Element ''circle'' [(''r'', ''2'')] []) [newGroup basic 1 secondGroup]],
          2)
   \<and> origins 4 basic (Document [groupsDoc]) (fst (nextNode (createTreeWalker firstGroup)))
        [newGroup basic 0 firstGroup] ([], 1) (snd (nextNode (createTreeWalker firstGroup)))
      = [(''circle'', Element ''circle'' [(''r'', ''5'')] [], [newGroup basic 0 firstGroup]),
         (''rect'', Element ''rect'' [] [], [newGroup basic 0 firstGroup]),
         (''ellipse'', Element ''ellipse'' [] [], [newGroup basic 0 firstGroup])]
   \<and> circle_primitive basic (Element ''circle'' [(''r'', ''5'')] []) [newGroup basic 0 firstGroup] ''groupIds''
        = Some (Ids [''i''])
   \<and> ellipse_primitive basic (Element ''ellipse'' [] []) [newGroup basic 0 firstGroup] ''groupIds''
        = Some (Ids [''i''])
   \<and> circle_primitive basic (Element ''circle'' [(''r'', ''2'')] []) [newGroup basic 1 secondGroup] ''groupIds''
        = Some (Ids [''ii''])
   \<and> (\<exists>inside after k1.
           walk 4 basic (Document [groupsDoc]) (fst (nextNode (createTreeWalker firstGroup)))
             [newGroup basic 0 firstGroup] ([], 1)
             (snd (nextNode (createTreeWalker firstGroup))) = Inr (inside, k1)
         \<and> walk 4 basic (Document [groupsDoc]) (fst (nextSibling atFirstGroup)) [] (inside, k1)
             (snd (nextSibling atFirstGroup)) = Inr (inside @ after, 2)
         \<and> [circle_primitive basic (Element ''circle'' [(''r'', ''5'')] []) [newGroup basic 0 firstGroup],
            rect_primitive basic (Element ''rect'' [] []) [newGroup basic 0 firstGroup],
            ellipse_primitive basic (Element ''ellipse'' [] []) [newGroup basic 0 firstGroup],
            circle_primitive basic (Element ''circle'' [(''r'', ''2'')] []) [newGroup basic 1 secondGroup]]
            = inside @ after
         \<and> list_all2
             (\<lambda>e og. case og of (name, el, gs) \<Rightarrow>
                (\<exists>ext. gs = newGroup basic 0 firstGroup # ext)
              \<and> (name = ''circle'' \<or> name = ''ellipse'' \<longrightarrow>
                   e ''groupIds'' = Some (Ids (map group_id gs)) \<and>
                   ''i'' \<in> set (map group_id gs))
              \<and> (name = ''path'' \<and> get basic el ''fill-rule'' (Some ''nonzero'') = ''nonzero'' \<longrightarrow>
                   (\<exists>j. randomId basic j \<noteq> ''i'' \<and> e ''groupIds'' = Some (Ids [randomId basic j]))))
             inside
             (origins 4 basic (Document [groupsDoc]) (fst (nextNode (createTreeWalker firstGroup)))
                [newGroup basic 0 firstGroup] ([], 1)
                (snd (nextNode (createTreeWalker firstGroup))))
         \<and> list_all2
             (\<lambda>e og. case og of (name, el, gs) \<Rightarrow>
                ''i'' \<notin> set (map group_id gs)
              \<and> (name = ''circle'' \<or> name = ''ellipse'' \<longrightarrow>
                   e ''groupIds'' = Some (Ids (map group_id gs)))
              \<and> (name = ''path'' \<and> get basic el ''fill-rule'' (Some ''nonzero'') = ''nonzero'' \<longrightarrow>
                   (\<exists>j. randomId basic j \<noteq> ''i'' \<and> e ''groupIds'' = Some (Ids [randomId basic j]))))
             after
             (origins 4 basic (Document [groupsDoc]) (fst (nextSibling atFirstGroup)) [] (inside, k1)
                (snd (nextSibling atFirstGroup))))"
proof -
  have name: "nodeName firstGroup = ''g''" by (simp add: firstGroup_def)
  have five: "(5::nat) = Suc 4" by simp
  have cur: "currentNode atFirstGroup = firstGroup" by (simp add: atFirstGroup_def)
  have none: "\<forall>g \<in> set ([]::group list). \<exists>j<0. group_id g = randomId basic j" by simp
  from group_scope[OF name groupsDoc_run[unfolded five] basic_ids_inj none]
  have "(\<exists>inside after k1.
           walk 4 basic (Document [groupsDoc]) (fst (nextNode (createTreeWalker firstGroup)))
             [newGroup basic 0 firstGroup] ([], 1)
             (snd (nextNode (createTreeWalker firstGroup))) = Inr (inside, k1)
         \<and> walk 4 basic (Document [groupsDoc]) (fst (nextSibling atFirstGroup)) [] (inside, k1)
             (snd (nextSibling atFirstGroup)) = Inr (inside @ after, 2)
         \<and> [circle_primitive basic (Element ''circle'' [(''r'', ''5'')] []) [newGroup basic 0 firstGroup],
            rect_primitive basic (Element ''rect'' [] []) [newGroup basic 0 firstGroup],
            ellipse_primitive basic (Element ''ellipse'' [] []) [newGroup basic 0 firstGroup],
            circle_primitive basic (Element ''circle'' [(''r'', ''2'')] []) [newGroup basic 1 secondGroup]]
            = inside @ after
         \<and> list_all2
             (\<lambda>e og. case og of (name, el, gs) \<Rightarrow>
                (\<exists>ext. gs = newGroup basic 0 firstGroup # ext)
              \<and> (name = ''circle'' \<or> name = ''ellipse'' \<longrightarrow>
                   e ''groupIds'' = Some (Ids (map group_id gs)) \<and>
                   ''i'' \<in> set (map group_id gs))
              \<and> (name = ''path'' \<and> get basic el ''fill-rule'' (Some ''nonzero'') = ''nonzero'' \<longrightarrow>
                   (\<exists>j. randomId basic j \<noteq> ''i'' \<and> e ''groupIds'' = Some (Ids [randomId basic j]))))
             inside
             (origins 4 basic (Document [groupsDoc]) (fst (nextNode (createTreeWalker firstGroup)))
                [newGroup basic 0 firstGroup] ([], 1)
                (snd (nextNode (createTreeWalker firstGroup))))
         \<and> list_all2
             (\<lambda>e og. case og of (name, el, gs) \<Rightarrow>
                ''i'' \<notin> set (map group_id gs)
              \<and> (name = ''circle'' \<or> name = ''ellipse'' \<longrightarrow>
                   e ''groupIds'' = Some (Ids (map group_id gs)))
              \<and> (name = ''path'' \<and> get basic el ''fill-rule'' (Some ''nonzero'') = ''nonzero'' \<longrightarrow>
                   (\<exists>j. randomId basic j \<noteq> ''i'' \<and> e ''groupIds'' = Some (Ids [randomId basic j]))))
             after
             (origins 4 basic (Document [groupsDoc]) (fst (nextSibling atFirstGroup)) [] (inside, k1)
                (snd (nextSibling atFirstGroup))))"
    by (simp add: cur basic_sel(13))
  with name basic_ids_inj groupsDoc_run firstGroup_origins firstGroup_ids show ?thesis by simp
qed

end
